theory Spec2Isabelle
  imports Complex_Main
begin

section \<open>The calculator model (src/js/models/model.js)\<close>

text \<open>
  The module keeps four variables (\<open>equation\<close>, \<open>calculated\<close>, \<open>lastCalculationResult\<close>,
  \<open>undoLog\<close>) and every function mutates them; the model passes them in a record and
  returns the record updated.

  An entry of \<open>equation\<close> is a JavaScript string, or \<open>null\<close>: the one writer of a
  non-string is \<open>replaceLastComponent(checkNegativeFormat(last))\<close> with \<open>last === null\<close>.
  A token is therefore a \<open>string option\<close>, \<open>None\<close> being \<open>null\<close>. The same type is the
  value of the local variable \<open>last\<close> (a string or \<open>null\<close>). Characters are code units
  below 256; every token the calculator builds is ASCII.

  The functions read the legacy static property \<open>RegExp.$2\<close> (the second capture group
  of the last successful regular-expression match of the whole script). It is part of
  the state, field \<open>regexp2\<close>: a successful match of any regular expression stores its
  second group there (the empty string when it has fewer than two groups), a failed
  match leaves it alone.
\<close>

type_synonym token = "string option"

record state =
  equation :: "token list"
  calculated :: bool
  lastCalculationResult :: string
  undoLog :: "token list list"
  regexp2 :: string

definition OPERATORS :: "string list" where
  "OPERATORS = [''+'', ''-'', ''*'', ''/'', ''^'']"

definition MODIFIERS :: "string list" where
  "MODIFIERS = [''^2'', ''^3'', ''^-1'', ''!'']"

definition FUNCTIONS :: "string list" where
  "FUNCTIONS = [''sqrt('', ''sin('', ''cos('', ''tan('', ''asin('', ''acos('', ''atan('',
     ''log('', ''log10('', ''pow(E,'', ''pow(2,'', ''E'']"

definition DECIMAL :: char where
  "DECIMAL = CHR ''.''"

definition MAX_DIGITS :: nat where
  "MAX_DIGITS = 9"

definition BRACKET_OPEN :: string where
  "BRACKET_OPEN = ''(''"

definition BRACKET_CLOSE :: string where
  "BRACKET_CLOSE = '')''"

text \<open>JavaScript truthiness of a string-or-null: \<open>null\<close> and the empty string are falsy.\<close>

definition truthy :: "token \<Rightarrow> bool" where
  "truthy t = (case t of None \<Rightarrow> False | Some v \<Rightarrow> v \<noteq> [])"

text \<open>\<open>x || null\<close>\<close>

definition or_null :: "token \<Rightarrow> token" where
  "or_null t = (if truthy t then t else None)"

text \<open>\<open>indexOf(value) !== -1\<close> compares with \<open>===\<close>: \<open>null\<close> is in none of the lists.\<close>

definition isOperator :: "token \<Rightarrow> bool" where
  "isOperator v = (case v of None \<Rightarrow> False | Some x \<Rightarrow> x \<in> set OPERATORS)"

definition isModifier :: "token \<Rightarrow> bool" where
  "isModifier v = (case v of None \<Rightarrow> False | Some x \<Rightarrow> x \<in> set MODIFIERS)"

definition isFunction :: "token \<Rightarrow> bool" where
  "isFunction v = (case v of None \<Rightarrow> False | Some x \<Rightarrow> x \<in> set FUNCTIONS)"

definition isBracket :: "token \<Rightarrow> bool" where
  "isBracket v = (v = Some BRACKET_CLOSE \<or> v = Some BRACKET_OPEN)"

definition isOpenBracket :: "token \<Rightarrow> bool" where
  "isOpenBracket v = (v = Some BRACKET_OPEN)"

definition isCloseBracket :: "token \<Rightarrow> bool" where
  "isCloseBracket v = (v = Some BRACKET_CLOSE)"

subsection \<open>The undo log\<close>

text \<open>
  \<open>arraysEqual(a, b)\<close> on two arrays of strings (or nulls) is equality of the lists;
  \<open>arraysEqual(undefined, b)\<close>, the case of an empty log, is false.
  \<open>Array.from\<close> copies, and strings are immutable: a snapshot is a value.
\<close>

definition arraysEqual :: "token list option \<Rightarrow> token list \<Rightarrow> bool" where
  "arraysEqual a b = (case a of None \<Rightarrow> False | Some xs \<Rightarrow> xs = b)"

definition top :: "'a list \<Rightarrow> 'a option" where
  "top xs = (if xs = [] then None else Some (last xs))"

definition updateUndoLog :: "state \<Rightarrow> state" where
  "updateUndoLog s =
     (let log1 = (if \<not> arraysEqual (top (undoLog s)) (equation s)
                  then undoLog s @ [equation s] else undoLog s);
          log2 = (if length log1 > 300 then drop 100 log1 else log1)
      in s\<lparr>undoLog := log2\<rparr>)"

definition undo :: "state \<Rightarrow> state" where
  "undo s =
     (if length (undoLog s) > 0 then
        (let original_equation = equation s;
             popped = last (undoLog s);
             log1 = butlast (undoLog s)
         in if arraysEqual (Some original_equation) popped \<and> length log1 > 0
            then s\<lparr>equation := last log1, undoLog := butlast log1\<rparr>
            else s\<lparr>equation := popped, undoLog := log1\<rparr>)
      else s)"

subsection \<open>The token buffer\<close>

definition resetEquation :: "state \<Rightarrow> state" where
  "resetEquation s = updateUndoLog (s\<lparr>equation := [], calculated := False\<rparr>)"

definition isEmpty :: "state \<Rightarrow> bool" where
  "isEmpty s = (length (equation s) = 0)"

text \<open>
  \<open>getLastComponent(correct)\<close>: the last entry, \<open>|| null\<close>. With \<open>correct\<close>, a
  trailing decimal separator is cut off and the shorter string is written back into the
  buffer; no snapshot is recorded. (\<open>last.replace('.)', ')')\<close> discards its result.)
\<close>

definition getLastComponent :: "bool \<Rightarrow> state \<Rightarrow> token \<times> state" where
  "getLastComponent correct s =
     (let n = length (equation s);
          l = (if n = 0 then None else or_null (equation s ! (n - 1)))
      in case l of
           None \<Rightarrow> (None, s)
         | Some v \<Rightarrow>
             if correct \<and> v \<noteq> [] \<and> last v = DECIMAL
             then (Some (butlast v), s\<lparr>equation := (equation s)[n - 1 := Some (butlast v)]\<rparr>)
             else (Some v, s))"

text \<open>
  \<open>getPenultimateComponent(correct)\<close> reads the entry at \<open>length - 2\<close> and, when it
  corrects it, writes the corrected string at \<open>length - 1\<close>, as the source does.
\<close>

definition getPenultimateComponent :: "bool \<Rightarrow> state \<Rightarrow> token \<times> state" where
  "getPenultimateComponent correct s =
     (let n = length (equation s);
          l = (if n < 2 then None else or_null (equation s ! (n - 2)))
      in case l of
           None \<Rightarrow> (None, s)
         | Some v \<Rightarrow>
             if correct \<and> v \<noteq> [] \<and> last v = DECIMAL
             then (Some (butlast v), s\<lparr>equation := (equation s)[n - 1 := Some (butlast v)]\<rparr>)
             else (Some v, s))"

definition replaceLastComponent :: "token \<Rightarrow> state \<Rightarrow> state" where
  "replaceLastComponent v s =
     (let n = length (equation s)
      in updateUndoLog
           (if n > 0 then s\<lparr>equation := (equation s)[n - 1 := v], calculated := False\<rparr>
            else s))"

definition addComponent :: "string \<Rightarrow> state \<Rightarrow> state" where
  "addComponent v s =
     updateUndoLog (s\<lparr>equation := equation s @ [Some v], calculated := False\<rparr>)"

text \<open>\<open>equation.pop()\<close>\<close>

definition pop :: "state \<Rightarrow> state" where
  "pop s = s\<lparr>equation := butlast (equation s)\<rparr>"

subsection \<open>Regular expressions of the module\<close>

text \<open>
  Each regular expression of the source is a function on strings that says whether it
  matches (and what its second group captures). \<open>\d\<close> is \<open>[0-9]\<close>; \<open>.\<close> is any
  character but a line terminator; \<open>$\<close> (no \<open>m\<close> flag) is the end of the string.
\<close>

definition is_digit :: "char \<Rightarrow> bool" where
  "is_digit c = (c \<in> set ''0123456789'')"

definition line_terminator :: "char \<Rightarrow> bool" where
  "line_terminator c = (c = CHR 0x0A \<or> c = CHR 0x0D)"

definition startsWith :: "string \<Rightarrow> string \<Rightarrow> bool" where
  "startsWith p v = (take (length p) v = p)"

definition endsWith :: "string \<Rightarrow> string \<Rightarrow> bool" where
  "endsWith p v = (length p \<le> length v \<and> drop (length v - length p) v = p)"

text \<open>\<open>/^\-d+/\<close> in \<open>checkNegativeFormat\<close>: a minus sign and then the letter d.\<close>

definition match_minus_d :: "string \<Rightarrow> bool" where
  "match_minus_d v = startsWith ''-d'' v"

text \<open>
  \<open>(\()\-(.*?)(\))\<close> in \<open>isNegativeComponent\<close>, not anchored: at the first place where
  \<open>(-\<close> stands and a \<open>)\<close> follows with no line terminator between, the second group is
  the text between them (the lazy \<open>.*?\<close> stops at the first \<open>)\<close>).
\<close>

fun lazy_to_close :: "string \<Rightarrow> string option" where
  "lazy_to_close [] = None"
| "lazy_to_close (c # cs) =
     (if c = CHR '')'' then Some []
      else if line_terminator c then None
      else map_option ((#) c) (lazy_to_close cs))"

fun match_negative :: "string \<Rightarrow> string option" where
  "match_negative [] = None"
| "match_negative (c # cs) =
     (if c = CHR ''('' \<and> startsWith ''-'' cs then
        (case lazy_to_close (tl cs) of
           Some inner \<Rightarrow> Some inner
         | None \<Rightarrow> match_negative cs)
      else match_negative cs)"

text \<open>\<open>/E$/\<close>, \<open>/E-?$/\<close>, \<open>/^\-/\<close>, \<open>/^\-[0-9]$/\<close>\<close>

definition match_E_end :: "string \<Rightarrow> bool" where
  "match_E_end v = endsWith ''E'' v"

definition match_E_minus_end :: "string \<Rightarrow> bool" where
  "match_E_minus_end v = (endsWith ''E'' v \<or> endsWith ''E-'' v)"

definition match_minus_start :: "string \<Rightarrow> bool" where
  "match_minus_start v = startsWith ''-'' v"

definition match_minus_digit :: "string \<Rightarrow> bool" where
  "match_minus_digit v = (case v of [a, b] \<Rightarrow> a = CHR ''-'' \<and> is_digit b | _ \<Rightarrow> False)"

text \<open>
  \<open>EXPONENTIAL_REGEXP = /E[\-\+]?$/i\<close>: the suffix it matches, if any. The leftmost match
  wins, so a sign after the letter is part of the match whenever there is one.
\<close>

definition is_E :: "char \<Rightarrow> bool" where
  "is_E c = (c = CHR ''E'' \<or> c = CHR ''e'')"

definition exponential_suffix :: "string \<Rightarrow> nat option" where
  "exponential_suffix v =
     (let n = length v in
      if 2 \<le> n \<and> is_E (v ! (n - 2)) \<and> (v ! (n - 1) = CHR ''-'' \<or> v ! (n - 1) = CHR ''+'')
      then Some 2
      else if 1 \<le> n \<and> is_E (v ! (n - 1)) then Some 1
      else None)"

text \<open>
  The character class of \<open>isNumeric\<close>, as the bytes of the source file read in UTF-8:
  digits, the dot, \<open>E\<close>, the minus sign and three letters beyond ASCII (U+00E2, U+02C6,
  U+017E), of which only the first is a code unit below 256.
\<close>

definition numeric_char :: "char \<Rightarrow> bool" where
  "numeric_char c =
     (is_digit c \<or> c = CHR ''.'' \<or> c = CHR ''E'' \<or> c = CHR 0xE2 \<or> c = CHR ''-'')"

definition match_numeric :: "string \<Rightarrow> bool" where
  "match_numeric v = (v \<noteq> [] \<and> list_all numeric_char v)"

text \<open>A successful match of a regular expression with no second group.\<close>

definition matched :: "state \<Rightarrow> state" where
  "matched s = s\<lparr>regexp2 := []\<rparr>"

subsection \<open>Classification with regular expressions\<close>

definition checkNegativeFormat :: "token \<Rightarrow> state \<Rightarrow> token \<times> state" where
  "checkNegativeFormat component s =
     (case component of
        None \<Rightarrow> (None, s)
      | Some v \<Rightarrow>
          if v \<noteq> [] \<and> match_minus_d v then (Some (''('' @ v @ '')''), matched s)
          else (Some v, s))"

definition isNegativeComponent :: "string \<Rightarrow> state \<Rightarrow> bool \<times> state" where
  "isNegativeComponent component s =
     (case match_negative component of
        Some inner \<Rightarrow> (True, s\<lparr>regexp2 := inner\<rparr>)
      | None \<Rightarrow> (False, s))"

text \<open>\<open>isNumeric(null)\<close> tests the string \<open>"null"\<close>, which does not match.\<close>

definition isNumeric :: "token \<Rightarrow> state \<Rightarrow> bool \<times> state" where
  "isNumeric str s =
     (case str of
        None \<Rightarrow> (False, s)
      | Some v \<Rightarrow> if match_numeric v then (True, matched s) else (False, s))"

subsection \<open>The input rules\<close>

text \<open>
  \<open>addDigit\<close>. After the first test has failed \<open>last\<close> is a non-empty string. The digit
  count is the length of \<open>last.replace(/[^\d]/g, '')\<close>; that replacement is a successful
  match when the new token holds a character that is not a digit.
\<close>

definition addDigit :: "string \<Rightarrow> state \<Rightarrow> bool \<times> state" where
  "addDigit digit s0 =
     (let s1 = (if calculated s0 then resetEquation s0 else s0);
          (l, s2) = getLastComponent False s1
      in if (\<not> truthy l \<or> isOperator l \<or> isModifier l \<or> isBracket l \<or> isFunction l)
            \<and> (l \<noteq> Some ''-'' \<or> length (equation s2) > 1)
         then (True, addComponent digit s2)
         else
           (let v = the l;
                (c, s3) = checkNegativeFormat l s2;
                s4 = replaceLastComponent c s3;
                (neg, s5) = isNegativeComponent v s4;
                new = (if neg \<or> v = ''-''
                       then ''(-'' @ (if regexp2 s5 = ''0'' then [] else regexp2 s5) @ digit @ '')''
                       else if v = ''0'' then digit
                       else v @ digit);
                s6 = (if list_all is_digit new then s5 else matched s5)
            in if length (filter is_digit new) \<le> MAX_DIGITS
               then (True, replaceLastComponent (Some new) s6)
               else (False, updateUndoLog s6)))"

definition addOperator :: "string \<Rightarrow> state \<Rightarrow> state" where
  "addOperator operator s0 =
     (let s1 = (if calculated s0
                then addComponent (lastCalculationResult s0) (resetEquation s0) else s0);
          (l, s2) = getLastComponent True s1;
          (penultimate, s3) = getPenultimateComponent True s2
      in if \<not> truthy l \<and> operator \<noteq> ''-'' then s3
         else if l = Some ''-'' \<and> length (equation s3) = 1 then s3
         else if l = Some ''-'' \<and> isFunction penultimate then s3
         else
           (let (c, s4) = checkNegativeFormat l s3;
                s5 = replaceLastComponent c s4
            in if isOperator l then replaceLastComponent (Some operator) s5
               else if isFunction l then
                 (if operator = ''-'' then addComponent operator s5 else s5)
               else if truthy l \<and> match_E_end (the l) then
                 (if operator = ''-''
                  then replaceLastComponent (Some (the l @ ''-'')) (matched s5)
                  else matched s5)
               else addComponent operator s5))"

definition addModifier :: "string \<Rightarrow> state \<Rightarrow> state" where
  "addModifier modifier s0 =
     (let s1 = (if calculated s0
                then addComponent (lastCalculationResult s0) (resetEquation s0) else s0);
          (l, s2) = getLastComponent True s1;
          (penultimate, s3) = getPenultimateComponent True s2
      in if \<not> truthy l then s3
         else
           (let (numeric, s4) = isNumeric l s3
            in if numeric \<or> isModifier l \<or> isCloseBracket l then
                 (let (c, s5) = checkNegativeFormat l s4;
                      s6 = replaceLastComponent c s5
                  in if \<not> (truthy l \<and> match_E_end (the l)) then addComponent modifier s6
                     else matched s6)
               else s4))"

text \<open>\<open>addFunction\<close> returns \<open>true\<close> on its first path and nothing on the second; no caller
  reads the value, and the model returns the state only.\<close>

definition addFunction :: "string \<Rightarrow> state \<Rightarrow> state" where
  "addFunction func s0 =
     (let s1 = (if calculated s0 then resetEquation s0 else s0);
          (l, s2) = getLastComponent True s1
      in if \<not> truthy l \<or> isOperator l \<or> isOpenBracket l \<or> isFunction l
         then addComponent func s2
         else addComponent func (addOperator ''*'' s2))"

definition addDecimal :: "state \<Rightarrow> state" where
  "addDecimal s0 =
     (let (l, s1) = getLastComponent False s0
      in if \<not> truthy l \<or> isOperator l \<or> isModifier l then addComponent (''0'' @ [DECIMAL]) s1
         else if isFunction l then addComponent (''0'' @ [DECIMAL]) (addComponent ''*'' s1)
         else
           (let v = the l;
                (c, s2) = checkNegativeFormat l s1;
                s3 = replaceLastComponent c s2
            in if DECIMAL \<notin> set v then
                 (let (neg, s4) = isNegativeComponent v s3;
                      new = (if neg then ''(-'' @ regexp2 s4 @ [DECIMAL] @ '')''
                             else v @ [DECIMAL])
                  in replaceLastComponent (Some new) s4)
               else s3))"

definition removeLastChar :: "string \<Rightarrow> state \<Rightarrow> string \<times> state" where
  "removeLastChar str s =
     (let cut = butlast str
      in case exponential_suffix cut of
           Some k \<Rightarrow> (take (length cut - k) cut, matched s)
         | None \<Rightarrow> (cut, s))"

definition deleteLast :: "state \<Rightarrow> state" where
  "deleteLast s0 =
     (let (l, s1) = getLastComponent False s0
      in if \<not> truthy l then s1
         else
           (let v = the l;
                (c, s2) = checkNegativeFormat l s1;
                s3 = replaceLastComponent c s2;
                (neg, s4) = isNegativeComponent v s3;
                s5 = (if neg then
                        (let lastPositive = regexp2 s4
                         in if length lastPositive = 1 then pop s4
                            else (let (r, s') = removeLastChar lastPositive s4
                                  in replaceLastComponent (Some (''(-'' @ r @ '')'')) s'))
                      else if length v = 1 then pop s4
                      else if match_minus_digit v then pop (matched s4)
                      else if isFunction l \<or> isModifier l then pop s4
                      else (let (r, s') = removeLastChar v s4
                            in replaceLastComponent (Some r) s'))
            in updateUndoLog s5))"

definition changeSign :: "state \<Rightarrow> bool \<times> state" where
  "changeSign s0 =
     (let s1 = (if calculated s0
                then addComponent (lastCalculationResult s0) (resetEquation s0) else s0);
          (l, s2) = getLastComponent False s1
      in if truthy l \<and> \<not> isOperator l \<and> l \<noteq> Some ''0'' then
           (let v = the l;
                (w, s3) = (if match_minus_start v then (''('' @ v @ '')'', matched s2)
                           else (v, s2));
                (neg, s4) = isNegativeComponent w s3;
                new = (if neg then regexp2 s4 else ''(-'' @ w @ '')'')
            in (True, replaceLastComponent (Some new) s4))
         else (False, s2))"

definition countComponent :: "string \<Rightarrow> state \<Rightarrow> nat" where
  "countComponent val s = length (filter (\<lambda>eqComp. eqComp = Some val) (equation s))"

definition countFunctions :: "state \<Rightarrow> nat" where
  "countFunctions s = length (filter isFunction (equation s))"

text \<open>
  \<open>addBracket\<close>. \<open>isEmpty(last)\<close> ignores its argument. \<open>isNumeric\<close> is reached only when
  the buffer is not empty and \<open>last\<close> is no bracket. The loop pushes the characters of
  \<open>sign\<close> one by one, each through \<open>addComponent\<close>.
\<close>

definition addBracket :: "state \<Rightarrow> state" where
  "addBracket s0 =
     (let (l, s1) = getLastComponent False s0;
          countOpened = countComponent BRACKET_OPEN s1 + countFunctions s1;
          countClosed = countComponent BRACKET_CLOSE s1;
          (numeric, s2) = (if isEmpty s1 \<or> isBracket l then (False, s1) else isNumeric l s1);
          sign = (if isEmpty s1 then BRACKET_OPEN
                  else if isBracket l then
                    (if l = Some BRACKET_CLOSE \<and> countOpened > countClosed
                     then BRACKET_CLOSE else BRACKET_OPEN)
                  else if numeric \<and> countOpened = countClosed then ''*'' @ BRACKET_OPEN
                  else if isOperator l then BRACKET_OPEN
                  else if l \<noteq> Some BRACKET_CLOSE \<and> l \<noteq> Some BRACKET_OPEN
                          \<and> countOpened > countClosed then BRACKET_CLOSE
                  else BRACKET_OPEN)
      in fold (\<lambda>ch. addComponent [ch]) sign s2)"

text \<open>The module's variables as declared, and \<open>init\<close>.\<close>

definition initial :: state where
  "initial = \<lparr>equation = [], calculated = False, lastCalculationResult = [],
              undoLog = [], regexp2 = []\<rparr>"

definition init :: state where
  "init = resetEquation initial"

subsection \<open>Validity and evaluation\<close>

text \<open>
  The four error classes of src/js/models/errors.js, and the engine's own \<open>TypeError\<close>
  for a method call on \<open>null\<close>. \<open>InfinityError\<close> carries \<open>positive\<close>.
\<close>

datatype error =
  EquationInvalidFormatError | DivisionByZeroError | CalculationError
  | InfinityError bool | TypeError

text \<open>
  \<open>isValidEquation\<close>: \<open>!isOperator(last) && !last.match(/E-?$/)\<close>. When \<open>last\<close> is
  \<open>null\<close> the first conjunct is true and \<open>last.match\<close> is a call on \<open>null\<close>.
\<close>

definition isValidEquation :: "state \<Rightarrow> (error + bool) \<times> state" where
  "isValidEquation s0 =
     (let (l, s1) = getLastComponent True s0
      in if isOperator l then (Inr False, s1)
         else (case l of
                 None \<Rightarrow> (Inl TypeError, s1)
               | Some v \<Rightarrow>
                   if match_E_minus_end v then (Inr False, matched s1) else (Inr True, s1)))"

definition replaceLeftOperand :: "string \<Rightarrow> state \<Rightarrow> state" where
  "replaceLeftOperand v s =
     (let n = length (equation s)
      in if n = 0 then s
         else
           (let leftOperandSize = (if n = 1 then 0 else if n = 2 then 1 else n - 3)
            in updateUndoLog
                 (s\<lparr>equation := (drop leftOperandSize (equation s))[0 := Some v],
                    calculated := False\<rparr>)))"

text \<open>\<open>equation.join(' ')\<close>: \<open>null\<close> joins as the empty string.\<close>

fun join :: "token list \<Rightarrow> string" where
  "join [] = []"
| "join [t] = (case t of None \<Rightarrow> [] | Some v \<Rightarrow> v)"
| "join (t # ts) = (case t of None \<Rightarrow> [] | Some v \<Rightarrow> v) @ '' '' @ join ts"

text \<open>
  \<open>parseFloat(number) === 0\<close> for a string of digits and dots. \<open>parseFloat\<close> reads the
  longest prefix that is a decimal literal (digits, then optionally a dot and digits; at
  least one digit), and gives \<open>NaN\<close> when there is none. The literal's value becomes the
  nearest double, which is zero when the value is at most \<open>2^-1075\<close>.
\<close>

definition digit_value :: "char \<Rightarrow> nat" where
  "digit_value c = of_char c - 48"

definition digits_value :: "string \<Rightarrow> nat" where
  "digits_value ds = foldl (\<lambda>n c. 10 * n + digit_value c) 0 ds"

definition parseFloat_is_zero :: "string \<Rightarrow> bool" where
  "parseFloat_is_zero number =
     (let ip = takeWhile is_digit number;
          rest = dropWhile is_digit number;
          fp = (if startsWith ''.'' rest then takeWhile is_digit (tl rest) else [])
      in if ip = [] \<and> fp = [] then False
         else (of_nat (digits_value ip) + of_nat (digits_value fp) / 10 ^ length fp)
                * 2 ^ 1075 \<le> (1 :: rat))"

text \<open>
  \<open>/\/ *(\(?\-?([0-9\.]+)\)?)/g\<close>: what stands after a \<open>/\<close>, when the expression
  matches there: the second group (\<open>number\<close>) and the text left after the match.
\<close>

definition number_char :: "char \<Rightarrow> bool" where
  "number_char c = (is_digit c \<or> c = CHR ''.'')"

definition division_operand :: "string \<Rightarrow> (string \<times> string) option" where
  "division_operand t =
     (let t1 = dropWhile (\<lambda>c. c = CHR '' '') t;
          t2 = (if startsWith ''('' t1 then tl t1 else t1);
          t3 = (if startsWith ''-'' t2 then tl t2 else t2);
          number = takeWhile number_char t3;
          t4 = dropWhile number_char t3
      in if number = [] then None
         else Some (number, if startsWith '')'' t4 then tl t4 else t4))"

lemma division_operand_shorter:
  "division_operand t = Some (number, rest) \<Longrightarrow> length rest \<le> length t"
proof -
  assume a: "division_operand t = Some (number, rest)"
  have tl_le: "\<And>xs :: string. length (tl xs) \<le> length xs" by simp
  define t1 where "t1 = dropWhile (\<lambda>c. c = CHR '' '') t"
  define t2 where "t2 = (if startsWith ''('' t1 then tl t1 else t1)"
  define t3 where "t3 = (if startsWith ''-'' t2 then tl t2 else t2)"
  define t4 where "t4 = dropWhile number_char t3"
  have "length t1 \<le> length t" unfolding t1_def by (rule length_dropWhile_le)
  moreover have "length t2 \<le> length t1" unfolding t2_def by simp
  moreover have "length t3 \<le> length t2" unfolding t3_def by simp
  moreover have "length t4 \<le> length t3" unfolding t4_def by (rule length_dropWhile_le)
  moreover have "rest = (if startsWith '')'' t4 then tl t4 else t4)"
    using a unfolding division_operand_def t1_def t2_def t3_def t4_def
    by (simp add: Let_def split: if_splits)
  then have "length rest \<le> length t4" by simp
  ultimately show ?thesis by linarith
qed

text \<open>
  The \<open>replace\<close> with the callback \<open>checkDivisionByZero\<close>, over the joined text. A
  global \<open>replace\<close> first finds every match and then calls the callback for each, in
  order: \<open>division_capture\<close> is \<open>RegExp.$2\<close> after the matching (the second group of the
  last match of the text; unchanged when there is none), whether or not a callback
  throws afterwards. The callback throws \<open>DivisionByZeroError\<close> or returns
  \<open>'/ ' + number\<close>.
\<close>

function division_capture :: "string \<Rightarrow> string \<Rightarrow> string" where
  "division_capture [] r = r"
| "division_capture (c # cs) r =
     (if c = CHR ''/'' then
        (case division_operand cs of
           Some (number, rest) \<Rightarrow> division_capture rest number
         | None \<Rightarrow> division_capture cs r)
      else division_capture cs r)"
  by pat_completeness auto
termination
  by (relation "measure (\<lambda>(t, r). length t)") (auto dest: division_operand_shorter)

function checkDivisionByZero :: "string \<Rightarrow> error + string" where
  "checkDivisionByZero [] = Inr []"
| "checkDivisionByZero (c # cs) =
     (if c = CHR ''/'' then
        (case division_operand cs of
           Some (number, rest) \<Rightarrow>
             if parseFloat_is_zero number then Inl DivisionByZeroError
             else (case checkDivisionByZero rest of
                     Inl e \<Rightarrow> Inl e
                   | Inr out \<Rightarrow> Inr (''/ '' @ number @ out))
         | None \<Rightarrow>
             (case checkDivisionByZero cs of
                Inl e \<Rightarrow> Inl e
              | Inr out \<Rightarrow> Inr (c # out)))
      else
        (case checkDivisionByZero cs of
           Inl e \<Rightarrow> Inl e
         | Inr out \<Rightarrow> Inr (c # out)))"
  by pat_completeness auto
termination
  by (relation "measure length") (auto dest: division_operand_shorter)

subsection \<open>The formatter\<close>

text \<open>
  A finite JavaScript number is the rational it stands for. What the engine and the
  math.js library compute is not in the repository and is a parameter:
  \<open>math_evaluate text r\<close> is \<open>math.evaluate(text)\<close> run with \<open>RegExp.$2 = r\<close> (it throws,
  or returns a value, and leaves a \<open>RegExp.$2\<close>); \<open>toString\<close>, \<open>toFixed9\<close> and
  \<open>toExponential5\<close> are \<open>Number.prototype.toString()\<close>, \<open>toFixed(9)\<close> and
  \<open>toExponential(5)\<close>; \<open>plus_one\<close> is the floating-point \<open>value + 1\<close>; \<open>tiny\<close> is the
  number the literal \<open>1.0E-300\<close> denotes. \<open>NaN\<close> also stands for a value that is no
  number and for which \<open>isNaN\<close> holds.
\<close>

datatype js_number = NaN | Infinity | NegInfinity | Finite rat

datatype evaluation = Throws | Returns js_number

record js_env =
  math_evaluate :: "string \<Rightarrow> string \<Rightarrow> evaluation \<times> string"
  toString :: "rat \<Rightarrow> string"
  toFixed9 :: "rat \<Rightarrow> string"
  toExponential5 :: "rat \<Rightarrow> string"
  plus_one :: "rat \<Rightarrow> rat"
  tiny :: rat

text \<open>\<open>indexOf\<close> (\<open>-1\<close> when absent), \<open>substr(start, length)\<close>, \<open>parseInt(str, 10)\<close>
  (\<open>None\<close> is \<open>NaN\<close>), \<open>toUpperCase\<close> (the rendering of a finite number is ASCII, and
  only ASCII letters are mapped), \<open>replace\<close> of a first substring.\<close>

fun indexOf :: "string \<Rightarrow> char \<Rightarrow> int" where
  "indexOf [] c = -1"
| "indexOf (x # xs) c =
     (if x = c then 0 else (let i = indexOf xs c in if i < 0 then -1 else i + 1))"

definition substr :: "string \<Rightarrow> int \<Rightarrow> nat \<Rightarrow> string" where
  "substr v start n = take n (drop (nat start) v)"

definition whitespace :: "char \<Rightarrow> bool" where
  "whitespace c =
     (c \<in> set [CHR '' '', CHR 0x09, CHR 0x0A, CHR 0x0B, CHR 0x0C, CHR 0x0D, CHR 0xA0])"

definition parseInt :: "string \<Rightarrow> int option" where
  "parseInt v =
     (let t = dropWhile whitespace v;
          negative = startsWith ''-'' t;
          u = (if startsWith ''-'' t \<or> startsWith ''+'' t then tl t else t);
          ds = takeWhile is_digit u
      in if ds = [] then None
         else Some (if negative then - int (digits_value ds) else int (digits_value ds)))"

definition toUpperCase :: "string \<Rightarrow> string" where
  "toUpperCase v =
     map (\<lambda>c. if 97 \<le> (of_char c :: nat) \<and> (of_char c :: nat) \<le> 122
               then char_of ((of_char c :: nat) - 32) else c) v"

fun replace_first :: "string \<Rightarrow> string \<Rightarrow> string \<Rightarrow> string" where
  "replace_first p q [] = []"
| "replace_first p q (c # cs) =
     (if startsWith p (c # cs) then q @ drop (length p) (c # cs)
      else c # replace_first p q cs)"

text \<open>
  \<open>/(\.(0*[1-9])*)0+$/\<close> replaced by \<open>$1\<close>: at the first dot that is followed by digits
  only, the last of them a zero, the trailing zeros go. The second group is the last
  repetition: the last digit that is not zero, with the zeros right before it.
\<close>

definition last_repetition :: "string \<Rightarrow> string" where
  "last_repetition kept =
     (if kept = [] then []
      else rev (hd (rev kept) # takeWhile (\<lambda>c. c = CHR ''0'') (tl (rev kept))))"

fun strip_zeros :: "string \<Rightarrow> (string \<times> string) option" where
  "strip_zeros [] = None"
| "strip_zeros (c # cs) =
     (if c = CHR ''.'' \<and> cs \<noteq> [] \<and> list_all is_digit cs \<and> last cs = CHR ''0''
      then (let kept = rev (dropWhile (\<lambda>d. d = CHR ''0'') (rev cs))
            in Some (c # kept, last_repetition kept))
      else map_option (\<lambda>(out, g). (c # out, g)) (strip_zeros cs))"

text \<open>
  The test of \<open>formatValue\<close> that decides \<open>value += 1\<close>, on \<open>textValue = value.toString()\<close>.
\<close>

definition rounds_up :: "string \<Rightarrow> bool" where
  "rounds_up textValue =
     (let dotIndex = indexOf textValue CHR ''.''
      in dotIndex \<ge> int MAX_DIGITS \<and>
         (case parseInt (substr textValue (dotIndex + 1) (min (length textValue) 2)) of
            None \<Rightarrow> False
          | Some k \<Rightarrow> k \<ge> 95))"

definition formatValue :: "js_env \<Rightarrow> rat \<Rightarrow> state \<Rightarrow> string \<times> state" where
  "formatValue env value0 s0 =
     (let textValue = toString env value0;
          v = (if rounds_up textValue then plus_one env value0 else value0);
          fixed = toFixed9 env v;
          s1 = (if list_ex is_digit fixed then matched s0 else s0);
          cut = substr fixed 0 (MAX_DIGITS + length (filter (\<lambda>c. \<not> is_digit c) fixed));
          (f1, s2) = (case strip_zeros cut of
                        Some (out, g) \<Rightarrow> (out, s1\<lparr>regexp2 := g\<rparr>)
                      | None \<Rightarrow> (cut, s1));
          (f2, s3) = (if endsWith ''.'' f1 then (butlast f1, matched s2) else (f1, s2));
          has_e = list_ex is_E (toString env v);
          first = (f2 = ''0'' \<and> v \<noteq> 0);
          s4 = (if \<not> first \<and> has_e then matched s3 else s3);
          f3 = (if first \<or> has_e \<or> \<bar>v\<bar> \<ge> 10 ^ 10 then toExponential5 env v else f2)
      in (replace_first ''E+'' ''E'' (toUpperCase f3), s4))"

text \<open>
  \<open>calculate\<close>. The \<open>try\<close> block is \<open>evaluate\<close>: it ends in the error thrown inside it,
  or in the value of \<open>result\<close>. The \<open>catch\<close> clause, whatever was thrown, throws
  \<open>CalculationError\<close>.
\<close>

definition evaluate :: "js_env \<Rightarrow> state \<Rightarrow> (error option + js_number) \<times> state" where
  "evaluate env s =
     (let r = division_capture (join (equation s)) (regexp2 s)
      in case checkDivisionByZero (join (equation s)) of
           Inl e \<Rightarrow> (Inl (Some e), s\<lparr>regexp2 := r\<rparr>)
         | Inr evaluation \<Rightarrow>
             (case math_evaluate env (''('' @ evaluation @ '')'') r of
                (Throws, r') \<Rightarrow> (Inl None, s\<lparr>regexp2 := r'\<rparr>)
              | (Returns result, r') \<Rightarrow>
                  (Inr (case result of
                          Finite q \<Rightarrow> if \<bar>q\<bar> < tiny env then Finite 0 else Finite q
                        | _ \<Rightarrow> result),
                   s\<lparr>regexp2 := r'\<rparr>)))"

definition calculate :: "js_env \<Rightarrow> state \<Rightarrow> (error + string) \<times> state" where
  "calculate env s0 =
     (let s1 = (if calculated s0 then replaceLeftOperand (lastCalculationResult s0) s0
                else s0)
      in case isValidEquation s1 of
           (Inl e, s2) \<Rightarrow> (Inl e, s2)
         | (Inr False, s2) \<Rightarrow> (Inl EquationInvalidFormatError, s2)
         | (Inr True, s2) \<Rightarrow>
             (case evaluate env (s2\<lparr>calculated := False\<rparr>) of
                (Inl thrown, s3) \<Rightarrow> (Inl CalculationError, s3)
              | (Inr NaN, s3) \<Rightarrow> (Inl CalculationError, s3)
              | (Inr Infinity, s3) \<Rightarrow> (Inl (InfinityError True), s3)
              | (Inr NegInfinity, s3) \<Rightarrow> (Inl (InfinityError False), s3)
              | (Inr (Finite q), s3) \<Rightarrow>
                  (let (result, s4) = formatValue env q (s3\<lparr>calculated := True\<rparr>)
                   in (Inr result, s4\<lparr>lastCalculationResult := result\<rparr>))))"

section \<open>Notions the properties use\<close>

text \<open>What \<open>getLastComponent(true)\<close> leaves in the buffer: the last token without its
  trailing decimal separator.\<close>

definition strip_decimal :: "token list \<Rightarrow> token list" where
  "strip_decimal eq =
     (if eq \<noteq> [] \<and> truthy (last eq) \<and> last (the (last eq)) = DECIMAL
      then butlast eq @ [Some (butlast (the (last eq)))] else eq)"

text \<open>
  The second-to-last token ends in a decimal separator: the case in which
  \<open>getPenultimateComponent(true)\<close> writes into the buffer.
\<close>

definition penultimate_dangling :: "token list \<Rightarrow> bool" where
  "penultimate_dangling eq =
     (2 \<le> length eq \<and> truthy (eq ! (length eq - 2))
      \<and> last (the (eq ! (length eq - 2))) = DECIMAL)"

text \<open>
  The tokens after which C5 has a modifier accepted: a numeric literal (the test of
  \<open>isNumeric\<close>, or the wrapped form that \<open>isNegativeComponent\<close> recognises) that is no
  operator, a modifier, or a close bracket; and no exponent marker at the end.
\<close>

definition modifier_may_follow :: "string \<Rightarrow> bool" where
  "modifier_may_follow v =
     (((match_numeric v \<or> match_negative v \<noteq> None) \<and> v \<notin> set OPERATORS
       \<or> v \<in> set MODIFIERS \<or> v = BRACKET_CLOSE)
      \<and> \<not> match_E_minus_end v)"

text \<open>The digits of a token (\<open>null\<close> has none), their number, a digit key (one of the
  strings 0 to 9), and \<open>addDigit\<close> called for each key of a list in turn.\<close>

definition digits_of :: "token \<Rightarrow> string" where
  "digits_of t = (case t of None \<Rightarrow> [] | Some v \<Rightarrow> filter is_digit v)"

definition digit_count :: "token \<Rightarrow> nat" where
  "digit_count t = length (digits_of t)"

definition digit_key :: "string \<Rightarrow> bool" where
  "digit_key d = (length d = 1 \<and> list_all is_digit d)"

fun addDigits :: "string list \<Rightarrow> state \<Rightarrow> state" where
  "addDigits [] s = s"
| "addDigits (d # ds) s = addDigits ds (snd (addDigit d s))"

text \<open>The digits of the integer part of a rendered number: those before the dot.\<close>

definition integer_digits :: "string \<Rightarrow> nat" where
  "integer_digits textValue =
     length (filter is_digit (takeWhile (\<lambda>c. c \<noteq> CHR ''.'') textValue))"

text \<open>The nine mutating operations of the interface, and one call of any of them.\<close>

datatype operation =
  AddDigit string | AddOperator string | AddModifier string | AddFunction string
  | AddDecimal | DeleteLast | ChangeSign | AddBracket | ResetEquation

fun perform :: "operation \<Rightarrow> state \<Rightarrow> state" where
  "perform (AddDigit d) s = snd (addDigit d s)"
| "perform (AddOperator operator) s = addOperator operator s"
| "perform (AddModifier m) s = addModifier m s"
| "perform (AddFunction f) s = addFunction f s"
| "perform AddDecimal s = addDecimal s"
| "perform DeleteLast s = deleteLast s"
| "perform ChangeSign s = snd (changeSign s)"
| "perform AddBracket s = addBracket s"
| "perform ResetEquation s = resetEquation s"

text \<open>The keys 1 and delete, pressed \<open>n\<close> times each in turn.\<close>

fun type_and_delete :: "nat \<Rightarrow> state \<Rightarrow> state" where
  "type_and_delete 0 s = s"
| "type_and_delete (Suc n) s = deleteLast (snd (addDigit ''1'' (type_and_delete n s)))"

text \<open>An empty buffer with the calculated flag clear, whose newest snapshot is the
  empty buffer.\<close>

definition idle :: "state \<Rightarrow> bool" where
  "idle s = (equation s = [] \<and> \<not> calculated s \<and> top (undoLog s) = Some [])"

text \<open>Buffers reached from \<open>init\<close> by keys: minus; 5 and plus; square root and minus; 5.\<close>

definition typed_minus :: state where
  "typed_minus = addOperator ''-'' init"

definition typed_5_plus :: state where
  "typed_5_plus = addOperator ''+'' (snd (addDigit ''5'' init))"


definition typed_5 :: state where
  "typed_5 = snd (addDigit ''5'' init)"

text \<open>The keys 0, decimal point, sign, delete, delete and minus, pressed after \<open>init\<close>.\<close>

definition typed_0_dot_sign_del_del_minus :: state where
  "typed_0_dot_sign_del_del_minus =
     addOperator ''-'' (deleteLast (deleteLast (snd (changeSign (addDecimal
       (snd (addDigit ''0'' init)))))))"

text \<open>The keys 4, /, 0 and the decimal point, pressed after \<open>init\<close>.\<close>

definition typed_4_div_0_dot :: state where
  "typed_4_div_0_dot =
     addDecimal (snd (addDigit ''0'' (addOperator ''/'' (snd (addDigit ''4'' init)))))"

text \<open>The keys 1 to 9 after \<open>init\<close>.\<close>

definition typed_nine_digits :: state where
  "typed_nine_digits =
     addDigits (map (\<lambda>key. [key]) ''123456789'') init"

text \<open>The state after the keys 5, +, 3 and equals, with the result 8 on display.\<close>

definition showing_5_plus_3 :: state where
  "showing_5_plus_3 =
     \<lparr>equation = [Some ''5'', Some ''+'', Some ''3''], calculated = True,
      lastCalculationResult = ''8'',
      undoLog = [[], [Some ''5''], [Some ''5'', Some ''+''],
                 [Some ''5'', Some ''+'', Some ''3'']],
      regexp2 = []\<rparr>"

text \<open>An engine given on the two numbers of the example only: the double next to
  -12345678.95, which is -3314017958572851 / 2^28, and that number plus one.\<close>

definition example_engine :: js_env where
  "example_engine =
     \<lparr>math_evaluate = (\<lambda>text r. (Throws, r)),
      toString = (\<lambda>q. if q = - 3314017958572851 / 268435456 then ''-12345678.95'' else ''-12345677.95''),
      toFixed9 = (\<lambda>q. ''-12345677.949999999''),
      toExponential5 = (\<lambda>q. ''-1.23457e+7''),
      plus_one = (\<lambda>q. q + 1),
      tiny = 0\<rparr>"

text \<open>
  The undo log as \<open>undo\<close> reads it: its newest snapshot and the one before it. The
  buffer \<open>e\<close> is \<open>held\<close> when it is the newest snapshot, or the one before the newest
  and the newest is the current buffer.
\<close>

definition newest :: "state \<Rightarrow> token list option" where
  "newest s = top (undoLog s)"

definition previous :: "state \<Rightarrow> token list option" where
  "previous s = top (butlast (undoLog s))"

definition at_snapshot :: "token list \<Rightarrow> state \<Rightarrow> bool" where
  "at_snapshot e s = (newest s = Some e)"

definition one_past :: "token list \<Rightarrow> state \<Rightarrow> bool" where
  "one_past e s = (newest s = Some (equation s) \<and> previous s = Some e)"

definition held :: "token list \<Rightarrow> state \<Rightarrow> bool" where
  "held e s = (at_snapshot e s \<or> one_past e s)"

text \<open>The newest snapshot is the current buffer: the state every recording call leaves,
  and the one \<open>undo\<close> does not leave.\<close>

definition recorded :: "state \<Rightarrow> bool" where
  "recorded s = (top (undoLog s) = Some (equation s))"

text \<open>
  The last token (\<open>null\<close> for an empty buffer). It is \<open>keyed\<close> when it is a string, not
  empty, that \<open>checkNegativeFormat\<close> leaves as it is; it dangles when it ends in the
  decimal separator, which \<open>getLastComponent(true)\<close> cuts off.
\<close>

definition last_token :: "token list \<Rightarrow> token" where
  "last_token eq = (if eq = [] then None else last eq)"

definition keyed_last :: "token list \<Rightarrow> bool" where
  "keyed_last eq =
     (eq = [] \<or> (case last eq of None \<Rightarrow> False
                  | Some v \<Rightarrow> v \<noteq> [] \<and> \<not> match_minus_d v))"

definition dangling_decimal :: "token list \<Rightarrow> bool" where
  "dangling_decimal eq =
     (eq \<noteq> [] \<and> (case last eq of None \<Rightarrow> False
                   | Some v \<Rightarrow> v \<noteq> [] \<and> last v = DECIMAL))"

text \<open>
  The paths on which a key appends a token of its own: the first test of \<open>addDigit\<close>, of
  \<open>addDecimal\<close> and of \<open>addFunction\<close>. The test of \<open>addModifier\<close> for the token it
  follows, and the case in which \<open>addBracket\<close> pushes \<open>*\<close> before the bracket.
\<close>

definition digit_starts_token :: "token list \<Rightarrow> bool" where
  "digit_starts_token eq =
     (let l = last_token eq
      in (\<not> truthy l \<or> isOperator l \<or> isModifier l \<or> isBracket l \<or> isFunction l)
         \<and> (l \<noteq> Some ''-'' \<or> length eq > 1))"

definition decimal_starts_token :: "token list \<Rightarrow> bool" where
  "decimal_starts_token eq =
     (let l = last_token eq in \<not> truthy l \<or> isOperator l \<or> isModifier l)"

definition function_starts_token :: "token list \<Rightarrow> bool" where
  "function_starts_token eq =
     (let l = last_token eq
      in \<not> truthy l \<or> isOperator l \<or> isOpenBracket l \<or> isFunction l)"

definition takes_modifier :: "token \<Rightarrow> bool" where
  "takes_modifier l =
     ((case l of None \<Rightarrow> False | Some v \<Rightarrow> match_numeric v)
      \<or> isModifier l \<or> isCloseBracket l)"

definition inserts_multiplication :: "state \<Rightarrow> bool" where
  "inserts_multiplication s =
     (let l = last_token (equation s)
      in equation s \<noteq> [] \<and> \<not> isBracket l \<and> fst (isNumeric l s)
         \<and> countComponent BRACKET_OPEN s + countFunctions s = countComponent BRACKET_CLOSE s)"

text \<open>
  What an operation does first when a result is on display: \<open>addDigit\<close> and \<open>addFunction\<close>
  reset the buffer; \<open>addOperator\<close>, \<open>addModifier\<close> and \<open>changeSign\<close> reset it and push
  the last result. The other four do not read the flag.
\<close>

fun after_result :: "operation \<Rightarrow> state \<Rightarrow> state" where
  "after_result (AddDigit d) s = (if calculated s then resetEquation s else s)"
| "after_result (AddFunction f) s = (if calculated s then resetEquation s else s)"
| "after_result (AddOperator operator) s =
     (if calculated s then addComponent (lastCalculationResult s) (resetEquation s) else s)"
| "after_result (AddModifier m) s =
     (if calculated s then addComponent (lastCalculationResult s) (resetEquation s) else s)"
| "after_result ChangeSign s =
     (if calculated s then addComponent (lastCalculationResult s) (resetEquation s) else s)"
| "after_result AddDecimal s = s"
| "after_result DeleteLast s = s"
| "after_result AddBracket s = s"
| "after_result ResetEquation s = s"

text \<open>
  The states from which an operation leaves the buffer it found one snapshot back. A key
  that appends or rewrites once needs a log whose newest snapshot is the buffer; a key
  that first puts the last token back through \<open>replaceLastComponent\<close> records the buffer
  itself. Left out are the paths that record twice (a function after a value, the decimal
  point after a function, a bracket after a number, an operator or modifier after a
  token that ends in the decimal separator) and those that write into the buffer and
  record nothing.
\<close>

fun one_snapshot :: "operation \<Rightarrow> state \<Rightarrow> bool" where
  "one_snapshot (AddDigit d) s = (recorded s \<or> \<not> digit_starts_token (equation s))"
| "one_snapshot (AddOperator operator) s =
     (\<not> dangling_decimal (equation s)
      \<and> (recorded s
         \<or> \<not> (last_token (equation s) = Some ''-'' \<and> penultimate_dangling (equation s)
               \<and> isFunction (fst (getPenultimateComponent True s)))))"
| "one_snapshot (AddModifier m) s =
     (\<not> dangling_decimal (equation s)
      \<and> (recorded s \<or> \<not> penultimate_dangling (equation s)
         \<or> takes_modifier (last_token (equation s))))"
| "one_snapshot (AddFunction f) s =
     (recorded s \<and> \<not> dangling_decimal (equation s) \<and> function_starts_token (equation s))"
| "one_snapshot AddDecimal s =
     (\<not> isFunction (last_token (equation s))
      \<and> (recorded s \<or> \<not> decimal_starts_token (equation s)))"
| "one_snapshot DeleteLast s = True"
| "one_snapshot ChangeSign s = recorded s"
| "one_snapshot AddBracket s = (recorded s \<and> \<not> inserts_multiplication s)"
| "one_snapshot ResetEquation s = recorded s"

definition undoable :: "operation \<Rightarrow> state \<Rightarrow> bool" where
  "undoable op s =
     (equation (after_result op s) = equation s \<and> keyed_last (equation s)
      \<and> one_snapshot op (after_result op s))"

text \<open>The keys 1, 2, 3 after \<open>init\<close> and then \<open>undo\<close>; and the key 5 after 149 rounds
  of 1 and delete, when the log holds 300 snapshots.\<close>

definition typed_123_undone :: state where
  "typed_123_undone = undo (addDigits (map (\<lambda>key. [key]) ''123'') init)"

definition typed_5_on_full_log :: state where
  "typed_5_on_full_log = snd (addDigit ''5'' (type_and_delete 149 init))"

section \<open>Properties\<close>

text \<open>The definitions a proof by evaluation unfolds.\<close>

lemmas buffer_defs = updateUndoLog_def arraysEqual_def top_def replaceLastComponent_def
  addComponent_def resetEquation_def pop_def getLastComponent_def
  getPenultimateComponent_def or_null_def truthy_def

lemmas class_defs = isOperator_def isModifier_def isFunction_def isBracket_def
  isOpenBracket_def isCloseBracket_def OPERATORS_def MODIFIERS_def FUNCTIONS_def
  BRACKET_OPEN_def BRACKET_CLOSE_def DECIMAL_def MAX_DIGITS_def

lemmas regexp_defs = startsWith_def endsWith_def match_minus_d_def match_E_end_def
  match_E_minus_end_def match_minus_start_def match_minus_digit_def is_digit_def
  matched_def checkNegativeFormat_def isNegativeComponent_def isNumeric_def
  match_numeric_def numeric_char_def line_terminator_def

subsection \<open>Reading the last component\<close>

lemma getLastComponent_False:
  "getLastComponent False s =
     (if equation s = [] then None else or_null (last (equation s)), s)"
  by (auto simp: getLastComponent_def Let_def last_conv_nth split: option.splits)

lemma getLastComponent_equation:
  "equation (snd (getLastComponent True s)) = strip_decimal (equation s)"
proof (cases "equation s" rule: rev_cases)
  case Nil
  then show ?thesis by (simp add: getLastComponent_def strip_decimal_def)
next
  case (snoc ys y)
  then show ?thesis
    by (cases y)
       (auto simp: getLastComponent_def strip_decimal_def or_null_def truthy_def Let_def)
qed

lemma getLastComponent_fields:
  "calculated (snd (getLastComponent c s)) = calculated s"
  "undoLog (snd (getLastComponent c s)) = undoLog s"
  "lastCalculationResult (snd (getLastComponent c s)) = lastCalculationResult s"
  "regexp2 (snd (getLastComponent c s)) = regexp2 s"
  by (auto simp: getLastComponent_def Let_def split: option.splits)

lemma isValidEquation_equation:
  "equation (snd (isValidEquation s)) = strip_decimal (equation s)"
  using getLastComponent_equation [of s]
  by (auto simp: isValidEquation_def matched_def split: prod.splits option.splits)

lemma evaluate_equation: "equation (snd (evaluate env s)) = equation s"
  by (auto simp: evaluate_def Let_def split: prod.splits sum.splits evaluation.splits)

subsection \<open>Errors of calculate\<close>

text \<open>
  C3 (the code departs from the claim). On the tokens 4, /, 0 with the calculated flag
  clear, the callback inside the \<open>try\<close> block throws \<open>DivisionByZeroError\<close>; the
  \<open>catch\<close> clause of the same block catches it, and what \<open>calculate\<close> raises is
  \<open>CalculationError\<close>, whatever the evaluator would do.
\<close>

theorem calculate_division_by_zero_raises_CalculationError:
  assumes "equation s = [Some ''4'', Some ''/'', Some ''0'']" and "\<not> calculated s"
  shows "fst (evaluate env (s\<lparr>calculated := False\<rparr>)) = Inl (Some DivisionByZeroError)
         \<and> fst (calculate env s) = Inl CalculationError"
  using assms
  by (simp add: calculate_def isValidEquation_def getLastComponent_def or_null_def
      truthy_def DECIMAL_def isOperator_def OPERATORS_def match_E_minus_end_def
      endsWith_def evaluate_def division_operand_def startsWith_def number_char_def
      is_digit_def parseFloat_is_zero_def digits_value_def digit_value_def)

theorem calculate_division_by_zero_witness:
  "fst (calculate undefined
         \<lparr>equation = [Some ''4'', Some ''/'', Some ''0''], calculated = False,
          lastCalculationResult = [], undoLog = [], regexp2 = []\<rparr>)
   = Inl CalculationError"
  using calculate_division_by_zero_raises_CalculationError
    [of "\<lparr>equation = [Some ''4'', Some ''/'', Some ''0''], calculated = False,
          lastCalculationResult = [], undoLog = [], regexp2 = []\<rparr>" undefined]
  by simp

text \<open>
  C4, as amended. Whenever \<open>calculate\<close> raises an error, the token sequence after the
  call is the sequence before it, with the left operand replaced when the calculated
  flag was set, and with the trailing decimal separator of the last token cut off (the
  validity check reads the last token with \<open>getLastComponent(true)\<close>, which writes the
  correction into the buffer).
\<close>

theorem calculate_error_keeps_corrected_buffer:
  assumes "fst (calculate env s) = Inl e"
  shows "equation (snd (calculate env s)) =
         strip_decimal (equation (if calculated s
                                  then replaceLeftOperand (lastCalculationResult s) s
                                  else s))"
proof -
  define s1 where
    "s1 = (if calculated s then replaceLeftOperand (lastCalculationResult s) s else s)"
  obtain v s2 where iv: "isValidEquation s1 = (v, s2)"
    by (cases "isValidEquation s1")
  have eq2: "equation s2 = strip_decimal (equation s1)"
    using isValidEquation_equation [of s1] iv by simp
  show ?thesis
  proof (cases v)
    case (Inl e')
    then show ?thesis using iv eq2 by (simp add: calculate_def s1_def)
  next
    case (Inr b)
    show ?thesis
    proof (cases b)
      case False
      then show ?thesis using Inr iv eq2 by (simp add: calculate_def s1_def)
    next
      case True
      obtain r s3 where ev: "evaluate env (s2\<lparr>calculated := False\<rparr>) = (r, s3)"
        by (cases "evaluate env (s2\<lparr>calculated := False\<rparr>)")
      have eq3: "equation s3 = equation s2"
        using evaluate_equation [of env "s2\<lparr>calculated := False\<rparr>"] ev by simp
      show ?thesis
      proof (cases r)
        case (Inl thrown)
        then show ?thesis
          using True Inr iv ev eq2 eq3 by (simp add: calculate_def s1_def)
      next
        case (Inr n)
        then show ?thesis
          using True \<open>v = Inr b\<close> iv ev eq2 eq3 assms
          by (cases n) (simp_all add: calculate_def s1_def split: prod.splits)
      qed
    qed
  qed
qed

lemma typed_4_div_0_dot_state:
  "equation typed_4_div_0_dot = [Some ''4'', Some ''/'', Some ''0.'']
   \<and> calculated typed_4_div_0_dot = False"
  by code_simp

lemma dangling_zero_divisor:
  assumes "equation s = [Some ''4'', Some ''/'', Some ''0.'']" and "\<not> calculated s"
  shows "fst (calculate env s) = Inl CalculationError
         \<and> equation (snd (calculate env s)) = [Some ''4'', Some ''/'', Some ''0'']"
  using assms
  by (simp add: calculate_def isValidEquation_def getLastComponent_def or_null_def
      truthy_def DECIMAL_def isOperator_def OPERATORS_def match_E_minus_end_def
      endsWith_def evaluate_def division_operand_def startsWith_def number_char_def
      is_digit_def parseFloat_is_zero_def digits_value_def digit_value_def)

lemma typed_4_div_0_dot_error:
  "fst (calculate undefined typed_4_div_0_dot) = Inl CalculationError"
  using dangling_zero_divisor [of typed_4_div_0_dot undefined] typed_4_div_0_dot_state
  by simp

theorem calculate_error_keeps_corrected_buffer_witness:
  "equation (snd (calculate undefined typed_4_div_0_dot))
   = [Some ''4'', Some ''/'', Some ''0'']"
  using calculate_error_keeps_corrected_buffer [OF typed_4_div_0_dot_error]
    typed_4_div_0_dot_state
  by (simp add: strip_decimal_def truthy_def DECIMAL_def)

text \<open>
  C4 as stated fails after the keys 4, /, 0 and the decimal point: the calculated flag
  is clear, \<open>calculate\<close> raises \<open>CalculationError\<close> (the engine is left unspecified: the
  call ends before it is asked), and the last token has changed from \<open>0.\<close> to \<open>0\<close>.
\<close>

theorem calculate_error_changes_buffer:
  "fst (calculate undefined typed_4_div_0_dot) = Inl CalculationError
   \<and> calculated typed_4_div_0_dot = False
   \<and> equation typed_4_div_0_dot = [Some ''4'', Some ''/'', Some ''0.'']
   \<and> equation (snd (calculate undefined typed_4_div_0_dot))
       = [Some ''4'', Some ''/'', Some ''0'']"
  using dangling_zero_divisor [of typed_4_div_0_dot undefined] typed_4_div_0_dot_state
  by simp

text \<open>
  C9. On an empty buffer \<open>calculate\<close> ends in the engine's \<open>TypeError\<close> (\<open>last.match\<close> on
  \<open>null\<close> in the validity check), which is none of the four error classes of the module;
  the buffer stays empty.
\<close>

theorem calculate_empty_raises_TypeError:
  assumes "equation s = []"
  shows "fst (calculate env s) = Inl TypeError
         \<and> fst (calculate env s) \<notin> {Inl EquationInvalidFormatError,
              Inl DivisionByZeroError, Inl CalculationError, Inl (InfinityError True),
              Inl (InfinityError False)}
         \<and> equation (snd (calculate env s)) = []"
proof -
  have "isValidEquation s = (Inl TypeError, s)"
    using assms by (simp add: isValidEquation_def getLastComponent_def isOperator_def)
  moreover have "replaceLeftOperand (lastCalculationResult s) s = s"
    using assms by (simp add: replaceLeftOperand_def)
  ultimately show ?thesis using assms by (simp add: calculate_def)
qed

theorem calculate_empty_witness:
  "fst (calculate undefined init) = Inl TypeError"
proof -
  have "equation init = []" by code_simp
  from calculate_empty_raises_TypeError [OF this] show ?thesis by simp
qed

subsection \<open>The undo log\<close>

lemma type_and_delete_once:
  assumes "idle s" and "length (undoLog s) \<le> 298"
  shows "idle (deleteLast (snd (addDigit ''1'' s)))
         \<and> undoLog (deleteLast (snd (addDigit ''1'' s))) = undoLog s @ [[Some ''1''], []]"
  using assms
  by (simp add: idle_def addDigit_def deleteLast_def Let_def buffer_defs class_defs
      regexp_defs split: if_splits)

lemma idle_init: "idle init \<and> length (undoLog init) = 1"
  by (simp add: idle_def init_def initial_def buffer_defs)

lemma type_and_delete_log:
  "2 * n \<le> 298 \<Longrightarrow>
     idle (type_and_delete n init)
     \<and> length (undoLog (type_and_delete n init)) = 1 + 2 * n"
proof (induction n)
  case 0
  then show ?case using idle_init by simp
next
  case (Suc n)
  then have before: "idle (type_and_delete n init)"
    and len: "length (undoLog (type_and_delete n init)) = 1 + 2 * n"
    by simp_all
  from type_and_delete_once [OF before] len Suc.prems
  show ?case by simp
qed

lemma last_delete:
  assumes "idle s" and "length (undoLog s) = 299"
  shows "deleteLast (snd (addDigit ''1'' s)) = updateUndoLog (pop (snd (addDigit ''1'' s)))"
    and "length (undoLog (pop (snd (addDigit ''1'' s)))) = 300"
    and "top (undoLog (pop (snd (addDigit ''1'' s))))
         \<noteq> Some (equation (pop (snd (addDigit ''1'' s))))"
  using assms
  by (simp_all add: idle_def addDigit_def deleteLast_def Let_def buffer_defs class_defs
      regexp_defs split: if_splits)

text \<open>
  C7 (the code departs from the claim). When the log holds 300 snapshots and a new one is
  recorded, the log is \<open>slice(100, length)\<close> of 301 entries: the oldest 100 go and 201
  stay, not 200.
\<close>

theorem updateUndoLog_trim_keeps_201:
  assumes "length (undoLog s) = 300" and "top (undoLog s) \<noteq> Some (equation s)"
  shows "undoLog (updateUndoLog s) = drop 100 (undoLog s) @ [equation s]
         \<and> length (undoLog (updateUndoLog s)) = 201"
  using assms
  by (auto simp: updateUndoLog_def arraysEqual_def Let_def split: option.splits)

text \<open>After \<open>init\<close>, the 150th delete of the keys 1, delete, 1, delete, ... records the
  301st snapshot.\<close>

theorem updateUndoLog_trim_witness:
  "length (undoLog (type_and_delete (Suc 149) init)) = 201"
proof -
  have before: "idle (type_and_delete 149 init)"
    and len: "length (undoLog (type_and_delete 149 init)) = 299"
    using type_and_delete_log [of 149] by simp_all
  note last = last_delete [OF before len]
  have step: "type_and_delete (Suc 149) init
              = deleteLast (snd (addDigit ''1'' (type_and_delete 149 init)))"
    by (simp only: type_and_delete.simps)
  have "length (undoLog (updateUndoLog (pop (snd (addDigit ''1''
          (type_and_delete 149 init)))))) = 201"
    using updateUndoLog_trim_keeps_201 [OF last(2) last(3)] by (rule conjunct2)
  then show ?thesis by (simp only: step last(1))
qed

subsection \<open>The ambient capture in addDigit\<close>

lemma typed_minus_state:
  "equation typed_minus = [Some ''-''] \<and> \<not> calculated typed_minus
   \<and> typed_minus\<lparr>regexp2 := []\<rparr> = typed_minus
   \<and> snd (isNegativeComponent ''(-5)'' typed_minus) = typed_minus\<lparr>regexp2 := ''5''\<rparr>"
  by code_simp

text \<open>The keys minus, 5, sign, delete, minus leave the lone minus sign in the buffer and
  the text 5 in \<open>RegExp.$2\<close>; the digit 7 then gives the token \<open>(-57)\<close>.\<close>

lemma capture_survives_keys:
  "equation (addOperator ''-'' (deleteLast (snd (changeSign (snd (addDigit ''5''
      typed_minus)))))) = [Some ''-'']
   \<and> regexp2 (addOperator ''-'' (deleteLast (snd (changeSign (snd (addDigit ''5''
      typed_minus)))))) = ''5''
   \<and> equation (snd (addDigit ''7'' (addOperator ''-'' (deleteLast (snd (changeSign
      (snd (addDigit ''5'' typed_minus)))))))) = [Some ''(-57)'']"
  by code_simp

text \<open>
  C10, as amended. When the buffer is the lone minus sign, the token \<open>addDigit\<close> builds
  is made of \<open>RegExp.$2\<close> (\<open>r\<close> below) and the digit, not of the buffer: in one and the
  same editor state \<open>s\<close>, two values of \<open>r\<close> give two tokens. The token is \<open>(-digit)\<close>
  exactly when \<open>r\<close> is empty, as it is before any match, or is the text \<open>0\<close>.
\<close>

theorem addDigit_after_lone_minus_reads_capture:
  assumes "equation s = [Some ''-'']" and "\<not> calculated s"
      and "length (filter is_digit ((if r = ''0'' then [] else r) @ digit)) \<le> MAX_DIGITS"
  shows "fst (addDigit digit (s\<lparr>regexp2 := r\<rparr>))
         \<and> equation (snd (addDigit digit (s\<lparr>regexp2 := r\<rparr>)))
             = [Some (''(-'' @ (if r = ''0'' then [] else r) @ digit @ '')'')]
         \<and> ((equation (snd (addDigit digit (s\<lparr>regexp2 := r\<rparr>)))
               = [Some (''(-'' @ digit @ '')'')]) = (r = [] \<or> r = ''0''))"
proof -
  have built: "fst (addDigit digit (s\<lparr>regexp2 := r\<rparr>))
         \<and> equation (snd (addDigit digit (s\<lparr>regexp2 := r\<rparr>)))
             = [Some (''(-'' @ (if r = ''0'' then [] else r) @ digit @ '')'')]"
    using assms
    by (auto simp add: addDigit_def Let_def buffer_defs class_defs startsWith_def
        match_minus_d_def matched_def checkNegativeFormat_def isNegativeComponent_def
        is_digit_def split: if_splits)
  then show ?thesis by auto
qed

text \<open>After the minus key, and after the minus key and a call of the interface's
  \<open>isNegativeComponent('(-5)')\<close>: the four variables of the module are the same, the
  tokens built for the digit 7 are not.\<close>

theorem addDigit_after_lone_minus_witness:
  "equation (snd (addDigit ''7'' typed_minus)) = [Some ''(-7)'']
   \<and> equation (snd (addDigit ''7'' (snd (isNegativeComponent ''(-5)'' typed_minus))))
       = [Some ''(-57)'']"
  using addDigit_after_lone_minus_reads_capture [of typed_minus "''5''" "''7''"]
    addDigit_after_lone_minus_reads_capture [of typed_minus "[]" "''7''"]
    typed_minus_state
  by (simp add: is_digit_def MAX_DIGITS_def)

text \<open>
  C10 as stated fails in its last clause: the keys 0, decimal point, sign, delete,
  delete and minus leave the lone minus sign in the buffer and the text \<open>0\<close> in
  \<open>RegExp.$2\<close>, which is no pristine state, and the digit 7 gives \<open>(-7)\<close> all the same.
\<close>

theorem addDigit_after_capture_of_zero:
  "equation typed_0_dot_sign_del_del_minus = [Some ''-'']
   \<and> regexp2 typed_0_dot_sign_del_del_minus = ''0''
   \<and> regexp2 init = []
   \<and> equation (snd (addDigit ''7'' typed_0_dot_sign_del_del_minus)) = [Some ''(-7)'']"
  by code_simp

subsection \<open>What the buffer primitives leave\<close>

lemma updateUndoLog_fields [simp]:
  "equation (updateUndoLog s) = equation s"
  "calculated (updateUndoLog s) = calculated s"
  "lastCalculationResult (updateUndoLog s) = lastCalculationResult s"
  "regexp2 (updateUndoLog s) = regexp2 s"
  by (simp_all add: updateUndoLog_def Let_def)

lemma matched_fields [simp]:
  "equation (matched s) = equation s"
  "calculated (matched s) = calculated s"
  "regexp2 (matched s) = []"
  by (simp_all add: matched_def)

lemma replaceLastComponent_fields [simp]:
  "equation (replaceLastComponent v s) = (equation s)[length (equation s) - 1 := v]"
  "regexp2 (replaceLastComponent v s) = regexp2 s"
  by (simp_all add: replaceLastComponent_def Let_def)

lemma addComponent_fields [simp]:
  "equation (addComponent v s) = equation s @ [Some v]"
  "regexp2 (addComponent v s) = regexp2 s"
  "calculated (addComponent v s) = False"
  by (simp_all add: addComponent_def)

lemma resetEquation_fields [simp]:
  "equation (resetEquation s) = []"
  "regexp2 (resetEquation s) = regexp2 s"
  "calculated (resetEquation s) = False"
  by (simp_all add: resetEquation_def)

lemma checkNegativeFormat_fields [simp]:
  "equation (snd (checkNegativeFormat c s)) = equation s"
  "calculated (snd (checkNegativeFormat c s)) = calculated s"
  by (simp_all add: checkNegativeFormat_def split: option.splits)

lemma checkNegativeFormat_value:
  "fst (checkNegativeFormat c s) =
     (case c of None \<Rightarrow> None
      | Some v \<Rightarrow> if match_minus_d v then Some (''('' @ v @ '')'') else Some v)"
  by (auto simp: checkNegativeFormat_def match_minus_d_def startsWith_def split: option.splits)



subsection \<open>The operator key\<close>




subsection \<open>The modifier key\<close>

lemma getLastComponent_value:
  "truthy (fst (getLastComponent True s))
     = (equation s \<noteq> [] \<and> truthy (last (strip_decimal (equation s))))"
  "truthy (fst (getLastComponent True s)) \<Longrightarrow>
     fst (getLastComponent True s) = last (strip_decimal (equation s))"
proof -
  show "truthy (fst (getLastComponent True s))
     = (equation s \<noteq> [] \<and> truthy (last (strip_decimal (equation s))))"
  proof (cases "equation s" rule: rev_cases)
    case Nil
    then show ?thesis by (simp add: getLastComponent_def truthy_def)
  next
    case (snoc ys y)
    then show ?thesis
      by (cases y)
         (auto simp: getLastComponent_def strip_decimal_def or_null_def truthy_def Let_def)
  qed
  show "truthy (fst (getLastComponent True s)) \<Longrightarrow>
     fst (getLastComponent True s) = last (strip_decimal (equation s))"
  proof (cases "equation s" rule: rev_cases)
    case Nil
    assume "truthy (fst (getLastComponent True s))"
    then show ?thesis using Nil by (simp add: getLastComponent_def truthy_def)
  next
    case (snoc ys y)
    assume "truthy (fst (getLastComponent True s))"
    then show ?thesis using snoc
      by (cases y)
         (auto simp: getLastComponent_def strip_decimal_def or_null_def truthy_def Let_def
               split: if_splits)
  qed
qed

lemma strip_decimal_shape:
  "length (strip_decimal eq) = length eq"
  "penultimate_dangling (strip_decimal eq) = penultimate_dangling eq"
  by (auto simp: strip_decimal_def penultimate_dangling_def nth_append nth_butlast)

lemma getPenultimateComponent_idle:
  assumes "\<not> penultimate_dangling (equation s)"
  shows "equation (snd (getPenultimateComponent True s)) = equation s"
    and "calculated (snd (getPenultimateComponent True s)) = calculated s"
  using assms
  by (auto simp: getPenultimateComponent_def penultimate_dangling_def or_null_def Let_def
           split: option.splits if_splits)


lemma isNumeric_fields [simp]:
  "equation (snd (isNumeric l s)) = equation s"
  "fst (isNumeric l s) = (case l of None \<Rightarrow> False | Some v \<Rightarrow> match_numeric v)"
  by (auto simp: isNumeric_def matched_def split: option.splits)

lemma minus_d_not_accepted:
  "match_minus_d v \<Longrightarrow> \<not> match_numeric v \<and> v \<notin> set MODIFIERS \<and> v \<noteq> BRACKET_CLOSE"
  by (cases v; cases "tl v")
     (auto simp: match_minus_d_def startsWith_def match_numeric_def numeric_char_def
           is_digit_def MODIFIERS_def BRACKET_CLOSE_def)

lemma addModifier_equation:
  assumes "\<not> calculated s" and "\<not> penultimate_dangling (equation s)"
  shows "equation (addModifier m s) =
           (let eq' = strip_decimal (equation s) in
            if equation s \<noteq> [] \<and> truthy (last eq')
               \<and> (match_numeric (the (last eq')) \<or> isModifier (last eq')
                    \<or> isCloseBracket (last eq'))
               \<and> \<not> match_E_end (the (last eq'))
            then eq' @ [Some m] else eq')"
proof -
  define l where "l = fst (getLastComponent True s)"
  define s2 where "s2 = snd (getLastComponent True s)"
  define s3 where "s3 = snd (getPenultimateComponent True s2)"
  define eq' where "eq' = strip_decimal (equation s)"
  have e2: "equation s2 = eq'"
    unfolding s2_def eq'_def by (rule getLastComponent_equation)
  have nd: "\<not> penultimate_dangling (equation s2)"
    using assms(2) e2 by (simp add: eq'_def strip_decimal_shape)
  have e3: "equation s3 = eq'"
    using getPenultimateComponent_idle(1) [OF nd] e2 by (simp add: s3_def)
  have t: "truthy l = (equation s \<noteq> [] \<and> truthy (last eq'))"
    unfolding l_def eq'_def by (rule getLastComponent_value)
  have run: "equation (addModifier m s) =
     (if \<not> truthy l then eq'
      else if fst (isNumeric l s3) \<or> isModifier l \<or> isCloseBracket l then
        (if \<not> match_E_end (the l)
         then eq'[length eq' - 1 := fst (checkNegativeFormat l (snd (isNumeric l s3)))] @ [Some m]
         else eq'[length eq' - 1 := fst (checkNegativeFormat l (snd (isNumeric l s3)))])
      else eq')"
    using assms(1) e3
    by (simp add: addModifier_def Let_def case_prod_beta l_def [symmetric]
        s2_def [symmetric] s3_def [symmetric])
  show ?thesis
  proof (cases "truthy l")
    case False
    then show ?thesis using run t by (auto simp: eq'_def Let_def)
  next
    case True
    then have lv: "l = last eq'" and ne: "equation s \<noteq> []" and tl: "truthy (last eq')"
      using t getLastComponent_value(2) [of s] by (simp_all add: l_def eq'_def)
    obtain v where v: "l = Some v" "v \<noteq> []"
      using True by (auto simp: truthy_def split: option.splits)
    have ne': "eq' \<noteq> []" using ne strip_decimal_shape(1) [of "equation s"]
      by (auto simp: eq'_def)
    have same: "eq'[length eq' - 1 := l] = eq'"
      using lv ne' by (metis append_butlast_last_id butlast_list_update last_list_update list_update_id last_conv_nth)
    show ?thesis
    proof (cases "match_numeric v \<or> isModifier l \<or> isCloseBracket l")
      case acc: True
      then have "\<not> match_minus_d v"
        using minus_d_not_accepted [of v] v
        by (auto simp: isModifier_def isCloseBracket_def)
      then have "fst (checkNegativeFormat l (snd (isNumeric l s3))) = l"
        using v by (simp add: checkNegativeFormat_value)
      then show ?thesis using run True acc v same lv tl ne
        by (simp add: eq'_def [symmetric] Let_def)
    next
      case False
      then show ?thesis using run True v lv tl ne
        by (simp add: eq'_def [symmetric] Let_def)
    qed
  qed
qed

text \<open>
  C5, as amended. With the calculated flag clear, no dangling decimal separator on the
  second-to-last token, and a last token that is neither the lone minus sign, nor a
  wrapped negative, nor ends in \<open>E-\<close>: \<open>addModifier\<close> cuts a trailing decimal separator
  off the last token and then appends the modifier when the last token is a numeric
  literal, a modifier or a close bracket and does not end in the exponent marker; in
  every other such state it appends nothing.
\<close>

theorem addModifier_appends_after_value:
  assumes "\<not> calculated s" and "\<not> penultimate_dangling (equation s)"
      and "\<forall>v. equation s \<noteq> [] \<and> last (strip_decimal (equation s)) = Some v \<longrightarrow>
             v \<noteq> ''-'' \<and> match_negative v = None \<and> \<not> endsWith ''E-'' v"
  shows "equation (addModifier m s) =
           (let eq' = strip_decimal (equation s) in
            if equation s \<noteq> [] \<and> truthy (last eq') \<and> modifier_may_follow (the (last eq'))
            then eq' @ [Some m] else eq')"
proof -
  define eq' where "eq' = strip_decimal (equation s)"
  have same: "modifier_may_follow v =
                ((match_numeric v \<or> isModifier (Some v) \<or> isCloseBracket (Some v))
                 \<and> \<not> match_E_end v)"
    if "equation s \<noteq> []" and "last eq' = Some v" for v
  proof -
    from that assms(3) have ex: "v \<noteq> ''-''" "match_negative v = None" "\<not> endsWith ''E-'' v"
      by (simp_all add: eq'_def)
    have "match_numeric v \<Longrightarrow> v \<notin> set OPERATORS"
      using ex(1)
      by (auto simp: match_numeric_def numeric_char_def is_digit_def OPERATORS_def)
    moreover have "v \<in> set MODIFIERS \<or> v = BRACKET_CLOSE \<Longrightarrow> \<not> endsWith ''E'' v"
      by (auto simp: MODIFIERS_def BRACKET_CLOSE_def endsWith_def)
    ultimately show ?thesis
      using ex
      by (auto simp: modifier_may_follow_def match_E_minus_end_def match_E_end_def
          isModifier_def isCloseBracket_def)
  qed
  have "truthy (last eq') \<Longrightarrow> last eq' = Some (the (last eq'))"
    by (auto simp: truthy_def split: option.splits)
  then show ?thesis
    using addModifier_equation [OF assms(1,2), of m] same [of "the (last eq')"]
    by (auto simp: Let_def eq'_def [symmetric] isModifier_def isCloseBracket_def)
qed

theorem addModifier_appends_witness:
  "equation (addModifier ''^2'' typed_5) = [Some ''5'', Some ''^2'']"
proof -
  have st: "equation typed_5 = [Some ''5'']" "\<not> calculated typed_5"
    by code_simp+
  have pd: "\<not> penultimate_dangling (equation typed_5)"
    using st by (simp add: penultimate_dangling_def)
  have sd: "strip_decimal (equation typed_5) = [Some ''5'']"
    using st by (simp add: strip_decimal_def DECIMAL_def truthy_def)
  have ex: "\<forall>v. equation typed_5 \<noteq> [] \<and> last (strip_decimal (equation typed_5)) = Some v
              \<longrightarrow> v \<noteq> ''-'' \<and> match_negative v = None \<and> \<not> endsWith ''E-'' v"
    using sd by (simp add: endsWith_def)
  have ok: "modifier_may_follow ''5''"
    by (simp add: modifier_may_follow_def match_numeric_def numeric_char_def is_digit_def
        OPERATORS_def match_E_minus_end_def endsWith_def)
  from addModifier_appends_after_value [OF st(2) pd ex, of "''^2''"]
  show ?thesis using st sd ok by (simp add: truthy_def)
qed

text \<open>
  C5 as stated fails once a result is on display: after the keys 5, +, 3 and equals
  (result 8) the calculated flag is set, and \<open>addModifier\<close> starts a new buffer from the
  last result instead of appending to the tokens 5, +, 3.
\<close>

theorem addModifier_after_result_starts_anew:
  "equation (addModifier ''^2'' showing_5_plus_3) = [Some ''8'', Some ''^2'']"
  by code_simp

text \<open>Two behaviours the amended C5 leaves out: the wrapped negative is passed over,
  and the correction of the second-to-last token lands on the last one.\<close>

lemma addModifier_passes_over_wrapped_negative:
  "equation (snd (changeSign typed_5)) = [Some ''(-5)'']
   \<and> equation (addModifier ''^2'' (snd (changeSign typed_5))) = [Some ''(-5)'']"
  by code_simp

lemma addModifier_overwrites_last_token:
  "equation (deleteLast (addBracket (addDecimal typed_5))) = [Some ''5.'', Some ''*'']
   \<and> equation (addModifier ''^2'' (deleteLast (addBracket (addDecimal typed_5))))
       = [Some ''5.'', Some ''5'']"
  by code_simp

subsection \<open>The digit key\<close>

lemma isNegativeComponent_fields [simp]:
  "equation (snd (isNegativeComponent v s)) = equation s"
  "fst (isNegativeComponent v s) = (match_negative v \<noteq> None)"
  "regexp2 (snd (isNegativeComponent v s)) =
     (case match_negative v of None \<Rightarrow> regexp2 s | Some inner \<Rightarrow> inner)"
  by (auto simp: isNegativeComponent_def split: option.splits)

lemma checkNegativeFormat_digits:
  "digits_of (fst (checkNegativeFormat c s)) = digits_of c"
  by (auto simp: checkNegativeFormat_value digits_of_def is_digit_def split: option.splits)

lemma in_set_updateD:
  "t \<in> set (xs[i := v]) \<Longrightarrow> t = v \<or> t \<in> set xs"
  using set_update_subset_insert [of xs i v] by auto

text \<open>The two paths of \<open>addDigit\<close>: a new token, or a digit merged into the last one.\<close>

lemma addDigit_start:
  assumes "s1 = (if calculated s then resetEquation s else s)"
      and "l = (if equation s1 = [] then None else or_null (last (equation s1)))"
      and "(\<not> truthy l \<or> isOperator l \<or> isModifier l \<or> isBracket l \<or> isFunction l)
            \<and> (l \<noteq> Some ''-'' \<or> length (equation s1) > 1)"
  shows "addDigit digit s = (True, addComponent digit s1)"
proof -
  have gl: "getLastComponent False s1 = (l, s1)"
    by (simp add: getLastComponent_False assms(2))
  show ?thesis
    unfolding addDigit_def assms(1) [symmetric]
    by (simp only: Let_def gl split_conv fst_conv snd_conv if_P [OF assms(3)])
qed

lemma addDigit_merge:
  assumes "s1 = (if calculated s then resetEquation s else s)"
      and "l = (if equation s1 = [] then None else or_null (last (equation s1)))"
      and "\<not> ((\<not> truthy l \<or> isOperator l \<or> isModifier l \<or> isBracket l \<or> isFunction l)
            \<and> (l \<noteq> Some ''-'' \<or> length (equation s1) > 1))"
  shows "addDigit digit s =
           (let v = the l;
                c = fst (checkNegativeFormat l s1);
                s4 = replaceLastComponent c (snd (checkNegativeFormat l s1));
                neg = fst (isNegativeComponent v s4);
                s5 = snd (isNegativeComponent v s4);
                new = (if neg \<or> v = ''-''
                       then ''(-'' @ (if regexp2 s5 = ''0'' then [] else regexp2 s5) @ digit @ '')''
                       else if v = ''0'' then digit
                       else v @ digit);
                s6 = (if list_all is_digit new then s5 else matched s5)
            in if length (filter is_digit new) \<le> MAX_DIGITS
               then (True, replaceLastComponent (Some new) s6)
               else (False, updateUndoLog s6))"
proof -
  have gl: "getLastComponent False s1 = (l, s1)"
    by (simp add: getLastComponent_False assms(2))
  show ?thesis
    unfolding addDigit_def assms(1) [symmetric]
    by (simp only: Let_def gl split_conv fst_conv snd_conv if_not_P [OF assms(3)] case_prod_beta)
qed

lemma addDigit_merge_shape:
  assumes "s1 = (if calculated s then resetEquation s else s)"
      and "l = (if equation s1 = [] then None else or_null (last (equation s1)))"
      and "\<not> ((\<not> truthy l \<or> isOperator l \<or> isModifier l \<or> isBracket l \<or> isFunction l)
            \<and> (l \<noteq> Some ''-'' \<or> length (equation s1) > 1))"
  shows "\<exists>new s6.
           equation s6 = (equation s1)[length (equation s1) - 1 := fst (checkNegativeFormat l s1)]
           \<and> addDigit digit s =
               (if length (filter is_digit new) \<le> MAX_DIGITS
                then (True, replaceLastComponent (Some new) s6)
                else (False, updateUndoLog s6))"
  unfolding addDigit_merge [OF assms] Let_def
  apply (rule exI, rule exI, rule conjI [rotated], rule refl)
  apply simp
  done

lemma addDigit_cap_step:
  assumes cap: "\<forall>t\<in>set (equation s). digit_count t \<le> MAX_DIGITS"
      and key: "digit_count (Some digit) \<le> MAX_DIGITS"
  shows "\<forall>t\<in>set (equation (snd (addDigit digit s))). digit_count t \<le> MAX_DIGITS"
proof -
  define s1 where "s1 = (if calculated s then resetEquation s else s)"
  define l where "l = (if equation s1 = [] then None else or_null (last (equation s1)))"
  have cap1: "\<forall>t\<in>set (equation s1). digit_count t \<le> MAX_DIGITS"
    using cap by (simp add: s1_def)
  show ?thesis
  proof (cases "(\<not> truthy l \<or> isOperator l \<or> isModifier l \<or> isBracket l \<or> isFunction l)
            \<and> (l \<noteq> Some ''-'' \<or> length (equation s1) > 1)")
    case True
    from addDigit_start [OF s1_def l_def True]
    have "equation (snd (addDigit digit s)) = equation s1 @ [Some digit]" by simp
    then show ?thesis using cap1 key by auto
  next
    case False
    then have tl: "truthy l" by (auto simp: truthy_def)
    then have ne: "equation s1 \<noteq> []" and lo: "l = last (equation s1)"
      by (auto simp: l_def truthy_def or_null_def split: if_splits)
    define c where "c = fst (checkNegativeFormat l s1)"
    have "digits_of c = digits_of l"
      by (simp add: c_def checkNegativeFormat_digits)
    moreover have "l \<in> set (equation s1)" using ne lo by simp
    ultimately have cc: "digit_count c \<le> MAX_DIGITS"
      using cap1 by (simp add: digit_count_def)
    obtain new s6 where
      s6: "equation s6 = (equation s1)[length (equation s1) - 1 := c]"
      and run: "addDigit digit s =
               (if length (filter is_digit new) \<le> MAX_DIGITS
                then (True, replaceLastComponent (Some new) s6)
                else (False, updateUndoLog s6))"
      using addDigit_merge_shape [OF s1_def l_def False, of digit] c_def by auto
    have eq: "equation (snd (addDigit digit s)) =
             (if digit_count (Some new) \<le> MAX_DIGITS
              then ((equation s1)[length (equation s1) - 1 := c])
                      [length (equation s1) - 1 := Some new]
              else (equation s1)[length (equation s1) - 1 := c])"
      unfolding run using s6 by (simp add: digit_count_def digits_of_def)
    show ?thesis
      unfolding eq using cap1 cc by (auto dest!: in_set_updateD)
  qed
qed

lemma addDigits_cap:
  "\<forall>d\<in>set ds. digit_key d \<Longrightarrow> \<forall>t\<in>set (equation s). digit_count t \<le> MAX_DIGITS
   \<Longrightarrow> \<forall>t\<in>set (equation (addDigits ds s)). digit_count t \<le> MAX_DIGITS"
proof (induction ds arbitrary: s)
  case Nil
  then show ?case by simp
next
  case (Cons d ds)
  have "digit_count (Some d) \<le> MAX_DIGITS"
    using Cons.prems(1)
    by (cases d) (auto simp: digit_key_def digit_count_def digits_of_def MAX_DIGITS_def)
  then have "\<forall>t\<in>set (equation (snd (addDigit d s))). digit_count t \<le> MAX_DIGITS"
    using Cons.prems(2) addDigit_cap_step by blast
  then show ?case using Cons.IH [of "snd (addDigit d s)"] Cons.prems(1) by simp
qed

lemma map_digits_update:
  assumes "eq \<noteq> []" and "digits_of c = digits_of (last eq)"
  shows "map digits_of (eq[length eq - 1 := c]) = map digits_of eq"
  using assms
  by (cases eq rule: rev_cases) (simp_all add: list_update_append)

lemma addDigit_failure_keeps_digits:
  assumes "\<not> fst (addDigit digit s)"
  shows "map digits_of (equation (snd (addDigit digit s))) = map digits_of (equation s)"
proof -
  define s1 where "s1 = (if calculated s then resetEquation s else s)"
  define l where "l = (if equation s1 = [] then None else or_null (last (equation s1)))"
  have merge: "\<not> ((\<not> truthy l \<or> isOperator l \<or> isModifier l \<or> isBracket l \<or> isFunction l)
            \<and> (l \<noteq> Some ''-'' \<or> length (equation s1) > 1))"
  proof
    assume c: "(\<not> truthy l \<or> isOperator l \<or> isModifier l \<or> isBracket l \<or> isFunction l)
            \<and> (l \<noteq> Some ''-'' \<or> length (equation s1) > 1)"
    from addDigit_start [OF s1_def l_def c, of digit] assms show False by simp
  qed
  then have tl: "truthy l" by (auto simp: truthy_def)
  then have ne: "equation s1 \<noteq> []" and lo: "l = last (equation s1)"
    by (auto simp: l_def truthy_def or_null_def split: if_splits)
  have nc: "\<not> calculated s"
    using ne by (auto simp: s1_def split: if_splits)
  then have s1: "s1 = s" by (simp add: s1_def)
  obtain new s6 where
    s6: "equation s6 = (equation s1)[length (equation s1) - 1 := fst (checkNegativeFormat l s1)]"
    and run: "addDigit digit s =
             (if length (filter is_digit new) \<le> MAX_DIGITS
              then (True, replaceLastComponent (Some new) s6)
              else (False, updateUndoLog s6))"
    using addDigit_merge_shape [OF s1_def l_def merge, of digit] by auto
  have "equation (snd (addDigit digit s)) =
          (equation s1)[length (equation s1) - 1 := fst (checkNegativeFormat l s1)]"
    using assms s6 unfolding run by (simp split: if_splits)
  then show ?thesis
    using map_digits_update [OF ne, of "fst (checkNegativeFormat l s1)"] lo s1
    by (simp add: checkNegativeFormat_digits)
qed

lemma match_negative_plain:
  "CHR ''('' \<notin> set v \<Longrightarrow> match_negative v = None"
  by (induction v) auto

lemma lazy_to_close_numeric:
  "list_all numeric_char w \<Longrightarrow> lazy_to_close (w @ '')'' @ rest) = Some w"
  by (induction w) (auto simp: numeric_char_def is_digit_def line_terminator_def)

lemma match_negative_wrapped:
  "list_all numeric_char w \<Longrightarrow> match_negative (''(-'' @ w @ '')'') = Some w"
  using lazy_to_close_numeric [of w "[]"] by (simp add: startsWith_def)

lemma numeric_no_bracket:
  "list_all numeric_char w \<Longrightarrow> CHR ''('' \<notin> set w"
  by (induction w) (auto simp: numeric_char_def is_digit_def)

lemma nine_digits_no_symbol:
  assumes "length (filter is_digit v) = MAX_DIGITS"
  shows "\<not> isOperator (Some v)" "\<not> isModifier (Some v)" "\<not> isBracket (Some v)"
    "\<not> isFunction (Some v)" "v \<noteq> ''-''" "v \<noteq> ''0''" "truthy (Some v)"
  using assms by (auto simp: class_defs is_digit_def truthy_def)

lemma numeric_not_minus_d:
  "list_all numeric_char w \<Longrightarrow> \<not> match_minus_d w"
  by (cases w; cases "tl w")
     (auto simp: match_minus_d_def startsWith_def numeric_char_def is_digit_def)

lemma digit_key_count: "digit_key digit \<Longrightarrow> length (filter is_digit digit) = 1"
  by (cases digit) (auto simp: digit_key_def)

lemma addDigit_tenth:
  assumes nc: "\<not> calculated s" and eq: "equation s = eq @ [Some v]"
      and num: "list_all numeric_char w" and shape: "v = w \<or> v = ''(-'' @ w @ '')''"
      and nine: "length (filter is_digit w) = MAX_DIGITS" and key: "digit_key digit"
  shows "\<not> fst (addDigit digit s) \<and> equation (snd (addDigit digit s)) = equation s"
proof -
  have s1: "s = (if calculated s then resetEquation s else s)" using nc by simp
  have dv: "length (filter is_digit v) = MAX_DIGITS"
    using shape nine by (auto simp: is_digit_def)
  note sym = nine_digits_no_symbol [OF dv]
  have l: "Some v = (if equation s = [] then None else or_null (last (equation s)))"
    using eq sym(7) by (simp add: or_null_def)
  have merge: "\<not> ((\<not> truthy (Some v) \<or> isOperator (Some v) \<or> isModifier (Some v)
                  \<or> isBracket (Some v) \<or> isFunction (Some v))
            \<and> (Some v \<noteq> Some ''-'' \<or> length (equation s) > 1))"
    using sym by simp
  define c where "c = fst (checkNegativeFormat (Some v) s)"
  define s4 where "s4 = replaceLastComponent c (snd (checkNegativeFormat (Some v) s))"
  define neg where "neg = fst (isNegativeComponent (the (Some v)) s4)"
  define s5 where "s5 = snd (isNegativeComponent (the (Some v)) s4)"
  define new where "new = (if neg \<or> the (Some v) = ''-''
                       then ''(-'' @ (if regexp2 s5 = ''0'' then [] else regexp2 s5) @ digit @ '')''
                       else if the (Some v) = ''0'' then digit
                       else the (Some v) @ digit)"
  define s6 where "s6 = (if list_all is_digit new then s5 else matched s5)"
  have run: "addDigit digit s =
               (if length (filter is_digit new) \<le> MAX_DIGITS
                then (True, replaceLastComponent (Some new) s6)
                else (False, updateUndoLog s6))"
    unfolding addDigit_merge [OF s1 l merge] Let_def s6_def new_def s5_def neg_def s4_def c_def
    by (rule refl)
  have c: "c = Some v"
    using shape numeric_not_minus_d [OF num]
    by (auto simp: c_def checkNegativeFormat_value match_minus_d_def startsWith_def)
  have e4: "equation s4 = equation s"
    using eq by (simp add: s4_def c)
  have e6: "equation s6 = equation s"
    using e4 by (simp add: s6_def s5_def)
  have one: "length (filter is_digit digit) = 1"
    using key by (rule digit_key_count)
  have "length (filter is_digit new) = 10"
  proof (cases "v = w")
    case True
    then have "match_negative v = None"
      using match_negative_plain [OF numeric_no_bracket [OF num]] by simp
    then have "neg = False" by (simp add: neg_def)
    then have "new = v @ digit"
      unfolding new_def using sym(5,6) by simp
    then show ?thesis using dv one by (simp add: MAX_DIGITS_def)
  next
    case False
    then have v: "v = ''(-'' @ w @ '')''" using shape by simp
    then have m: "match_negative v = Some w"
      using num match_negative_wrapped by simp
    have w0: "w \<noteq> ''0''"
    proof
      assume "w = ''0''"
      then have "length (filter is_digit w) \<le> 1" by simp
      then show False using nine by (simp add: MAX_DIGITS_def)
    qed
    have "neg = True" using m by (simp add: neg_def)
    moreover have "regexp2 s5 = w" using m by (simp add: s5_def)
    ultimately have "new = ''(-'' @ w @ digit @ '')''"
      unfolding new_def using w0 by simp
    then show ?thesis using nine one by (simp add: is_digit_def MAX_DIGITS_def)
  qed
  then have "addDigit digit s = (False, updateUndoLog s6)"
    unfolding run by (simp add: MAX_DIGITS_def)
  then show ?thesis using e6 by simp
qed

text \<open>
  C2. From a buffer whose tokens hold at most nine digits each (the empty buffer of
  \<open>init\<close> is one), no sequence of digit keys builds a token with more than nine
  digits; a call of \<open>addDigit\<close> that returns false leaves the digits of every token as
  they were; and when the last token is a numeric literal of nine digits, plain or in
  the wrapped form, the next digit key returns false and leaves the buffer unchanged.
\<close>

theorem addDigit_never_exceeds_nine_digits:
  assumes "\<forall>d\<in>set ds. digit_key d" and "digit_key digit"
      and "\<forall>t\<in>set (equation s). digit_count t \<le> MAX_DIGITS"
  shows "(\<forall>t\<in>set (equation (addDigits ds s)). digit_count t \<le> MAX_DIGITS)
         \<and> (\<not> fst (addDigit digit s) \<longrightarrow>
              map digits_of (equation (snd (addDigit digit s))) = map digits_of (equation s))
         \<and> (\<forall>w. \<not> calculated s \<and> equation s \<noteq> [] \<and> list_all numeric_char w
                  \<and> (last (equation s) = Some w \<or> last (equation s) = Some (''(-'' @ w @ '')''))
                  \<and> length (filter is_digit w) = MAX_DIGITS \<longrightarrow>
                \<not> fst (addDigit digit s) \<and> equation (snd (addDigit digit s)) = equation s)"
proof -
  have cap: "\<forall>t\<in>set (equation (addDigits ds s)). digit_count t \<le> MAX_DIGITS"
    using assms(1,3) by (rule addDigits_cap)
  have keep: "\<not> fst (addDigit digit s) \<longrightarrow>
              map digits_of (equation (snd (addDigit digit s))) = map digits_of (equation s)"
    using addDigit_failure_keeps_digits [of digit s] by simp
  have tenth: "\<not> fst (addDigit digit s) \<and> equation (snd (addDigit digit s)) = equation s"
    if nc: "\<not> calculated s" and ne: "equation s \<noteq> []" and num: "list_all numeric_char w"
      and shape: "last (equation s) = Some w \<or> last (equation s) = Some (''(-'' @ w @ '')'')"
      and nine: "length (filter is_digit w) = MAX_DIGITS" for w
  proof -
    obtain v where v: "last (equation s) = Some v" and vs: "v = w \<or> v = ''(-'' @ w @ '')''"
      using shape by auto
    have eq: "equation s = butlast (equation s) @ [Some v]"
      using ne v by (simp add: snoc_eq_iff_butlast [symmetric] flip: v)
    show ?thesis using nc eq num vs nine assms(2) by (rule addDigit_tenth)
  qed
  show ?thesis using cap keep tenth by blast
qed

lemma typed_nine_digits_state:
  "equation typed_nine_digits = [Some ''123456789''] \<and> \<not> calculated typed_nine_digits"
  by code_simp

theorem addDigit_tenth_digit_witness:
  "\<not> fst (addDigit ''0'' typed_nine_digits)
   \<and> equation (snd (addDigit ''0'' typed_nine_digits)) = [Some ''123456789'']"
proof -
  note st = typed_nine_digits_state
  have k: "\<forall>d\<in>set ([] :: string list). digit_key d" "digit_key ''0''"
    by (simp_all add: digit_key_def is_digit_def)
  have cap: "\<forall>t\<in>set (equation typed_nine_digits). digit_count t \<le> MAX_DIGITS"
    using st by (simp add: digit_count_def digits_of_def is_digit_def MAX_DIGITS_def)
  have w: "list_all numeric_char ''123456789''"
    "length (filter is_digit ''123456789'') = MAX_DIGITS"
    by (simp_all add: numeric_char_def is_digit_def MAX_DIGITS_def)
  from addDigit_never_exceeds_nine_digits [OF k cap] st w
  show ?thesis by simp
qed

subsection \<open>The formatter's rounding\<close>

text \<open>
  The test of \<open>formatValue\<close> on a decimal rendering, a sign (or none), digits, a dot and
  digits: it compares the position of the dot with \<open>MAX_DIGITS\<close>, and that position
  counts the sign. Without a sign it is the number of integer digits.
\<close>

lemma indexOf_first:
  "c \<notin> set xs \<Longrightarrow> indexOf (xs @ c # ys) c = int (length xs)"
proof (induction xs)
  case Nil
  then show ?case by simp
next
  case (Cons x xs)
  then have "x \<noteq> c" and "indexOf (xs @ c # ys) c = int (length xs)" by auto
  then show ?case by (simp add: Let_def)
qed


lemma parseInt_digits:
  assumes "ds \<noteq> []" and "list_all is_digit ds"
  shows "parseInt ds = Some (int (digits_value ds))"
proof -
  obtain d rest where ds: "ds = d # rest" using assms(1) by (cases ds) auto
  have d: "is_digit d" using assms(2) ds by simp
  have nw: "\<not> whitespace d" and nm: "d \<noteq> CHR ''-''" and np: "d \<noteq> CHR ''+''"
    using d by (auto simp: is_digit_def whitespace_def)
  have dw: "dropWhile whitespace ds = ds" using ds nw by simp
  have tw: "takeWhile is_digit ds = ds"
    using assms(2) by (simp add: list_all_iff)
  have st: "\<not> startsWith ''-'' ds" "\<not> startsWith ''+'' ds"
    using ds nm np by (simp_all add: startsWith_def)
  show ?thesis
    unfolding parseInt_def Let_def dw using st assms(1) by (simp add: tw)
qed


lemma rounds_up_decimal:
  assumes "list_all is_digit ip" and "fp \<noteq> []" and "list_all is_digit fp"
      and "sign = [] \<or> sign = ''-''"
  shows "rounds_up (sign @ ip @ ''.'' @ fp) =
           (length sign + length ip \<ge> MAX_DIGITS \<and> digits_value (take 2 fp) \<ge> 95)"
proof -
  have "\<not> is_digit CHR ''.''" by (simp add: is_digit_def)
  then have "CHR ''.'' \<notin> set ip"
    using assms(1) unfolding list_all_iff by blast
  moreover have "CHR ''.'' \<notin> set sign"
    using assms(4) by auto
  ultimately have nodot: "CHR ''.'' \<notin> set (sign @ ip)" by simp
  have idx: "indexOf (sign @ ip @ ''.'' @ fp) CHR ''.'' = int (length sign + length ip)"
    using indexOf_first [OF nodot, of fp] by simp
  have n: "nat (int (length sign + length ip) + 1) = Suc (length sign + length ip)"
    by simp
  have dr: "drop (nat (int (length sign + length ip) + 1)) (sign @ ip @ ''.'' @ fp) = fp"
    unfolding n by simp
  have "2 \<le> length (sign @ ip @ ''.'' @ fp)"
    using assms(2) by (cases fp) simp_all
  then have mn: "min (length (sign @ ip @ ''.'' @ fp)) 2 = 2" by simp
  have sub: "substr (sign @ ip @ ''.'' @ fp) (int (length sign + length ip) + 1)
               (min (length (sign @ ip @ ''.'' @ fp)) 2) = take 2 fp"
    unfolding substr_def mn dr by (rule refl)
  have "take 2 fp \<noteq> []" "list_all is_digit (take 2 fp)"
    using assms(2,3) by (auto simp: list_all_iff dest: in_set_takeD)
  then have "parseInt (take 2 fp) = Some (int (digits_value (take 2 fp)))"
    by (rule parseInt_digits)
  then show ?thesis
    unfolding rounds_up_def idx Let_def sub by (simp flip: of_nat_add)
qed

text \<open>
  C8 (the code departs from the claim). The number -12345678.95 has eight integer
  digits; its rendering has the dot at index 9, so the test holds and \<open>formatValue\<close>
  adds one to the value: the text it returns is that of -12345677.95, cut to nine
  digits. The renderings are those of ECMAScript for the double next to -12345678.95,
  taken as hypotheses.
\<close>

theorem formatValue_counts_the_sign:
  assumes "toString env q = ''-12345678.95''"
      and "toString env (plus_one env q) = ''-12345677.95''"
      and "toFixed9 env (plus_one env q) = ''-12345677.949999999''"
      and "\<bar>plus_one env q\<bar> < 10 ^ 10"
  shows "rounds_up (toString env q) \<and> integer_digits (toString env q) = 8
         \<and> fst (formatValue env q s) = ''-12345677.9''"
proof -
  have r: "rounds_up ''-12345678.95''" "integer_digits ''-12345678.95'' = 8"
    by code_simp+
  have cut: "substr ''-12345677.949999999'' 0
               (MAX_DIGITS + length (filter (\<lambda>c. \<not> is_digit c) ''-12345677.949999999''))
             = ''-12345677.9''"
    by code_simp
  have sz: "strip_zeros ''-12345677.9'' = None" by code_simp
  have e: "\<not> list_ex is_E ''-12345677.95''" "\<not> endsWith ''.'' ''-12345677.9''"
    "replace_first ''E+'' ''E'' (toUpperCase ''-12345677.9'') = ''-12345677.9''"
    by code_simp+
  show ?thesis
    using assms r cut sz e
    by (simp add: formatValue_def Let_def)
qed

theorem formatValue_counts_the_sign_witness:
  "fst (formatValue example_engine (- 3314017958572851 / 268435456) init) = ''-12345677.9''"
proof -
  have "toString example_engine (- 3314017958572851 / 268435456) = ''-12345678.95''"
    and "toString example_engine (plus_one example_engine (- 3314017958572851 / 268435456))
         = ''-12345677.95''"
    and "toFixed9 example_engine (plus_one example_engine (- 3314017958572851 / 268435456))
         = ''-12345677.949999999''"
    and "\<bar>plus_one example_engine (- 3314017958572851 / 268435456)\<bar> < 10 ^ 10"
    by (simp_all add: example_engine_def)
  from formatValue_counts_the_sign [OF this] show ?thesis by simp
qed

subsection \<open>Undo after one operation\<close>

text \<open>What \<open>undo\<close> reads of the log, and what a recording call leaves there. The trim
  of \<open>updateUndoLog\<close> keeps the last two snapshots.\<close>

lemma top_snoc [simp]: "top (xs @ [x]) = Some x"
  by (simp add: top_def)

lemma top_drop:
  assumes "length xs > 300"
  shows "top (drop 100 xs) = top xs" and "top (butlast (drop 100 xs)) = top (butlast xs)"
proof -
  have ne: "drop 100 xs \<noteq> []" using assms by simp
  then show "top (drop 100 xs) = top xs"
    using assms by (auto simp: top_def)
  have bd: "butlast (drop 100 xs) = drop 100 (butlast xs)"
    by (simp add: butlast_drop)
  have "length (butlast xs) > 100" using assms by simp
  then have ne2: "drop 100 (butlast xs) \<noteq> []" and ne3: "butlast xs \<noteq> []"
    by (simp, fastforce)
  have "last (drop 100 (butlast xs)) = last (butlast xs)"
    using ne2 by simp
  then show "top (butlast (drop 100 xs)) = top (butlast xs)"
    unfolding bd top_def using ne2 ne3 by simp
qed

lemma updateUndoLog_newest: "newest (updateUndoLog s) = Some (equation s)"
proof (cases "top (undoLog s) = Some (equation s)")
  case True
  then show ?thesis
    using top_drop(1) [of "undoLog s"]
    by (simp add: newest_def updateUndoLog_def arraysEqual_def Let_def)
next
  case False
  then show ?thesis
    using top_drop(1) [of "undoLog s @ [equation s]"]
    by (auto simp: newest_def updateUndoLog_def arraysEqual_def Let_def split: option.splits)
qed

lemma updateUndoLog_previous:
  "previous (updateUndoLog s) =
     (if newest s = Some (equation s) then previous s else newest s)"
proof (cases "top (undoLog s) = Some (equation s)")
  case True
  then show ?thesis
    using top_drop(2) [of "undoLog s"]
    by (simp add: newest_def previous_def updateUndoLog_def arraysEqual_def Let_def)
next
  case False
  then show ?thesis
    using top_drop(2) [of "undoLog s @ [equation s]"]
    by (auto simp: newest_def previous_def updateUndoLog_def arraysEqual_def Let_def
             split: option.splits)
qed

lemma undo_equation:
  "equation (undo s) =
     (case newest s of
        None \<Rightarrow> equation s
      | Some e \<Rightarrow> if e = equation s
                  then (case previous s of None \<Rightarrow> e | Some p \<Rightarrow> p) else e)"
  by (auto simp: undo_def newest_def previous_def top_def arraysEqual_def Let_def)

lemma held_undo:
  assumes "held e s" and "equation s \<noteq> e"
  shows "equation (undo s) = e"
  using assms by (auto simp: undo_equation held_def at_snapshot_def one_past_def)

lemma log_update [simp]:
  "newest (s\<lparr>equation := a\<rparr>) = newest s" "previous (s\<lparr>equation := a\<rparr>) = previous s"
  "newest (s\<lparr>calculated := b\<rparr>) = newest s" "previous (s\<lparr>calculated := b\<rparr>) = previous s"
  "newest (s\<lparr>regexp2 := r\<rparr>) = newest s" "previous (s\<lparr>regexp2 := r\<rparr>) = previous s"
  by (simp_all add: newest_def previous_def)

lemma log_replaceLastComponent:
  "newest (replaceLastComponent v s) = Some (equation (replaceLastComponent v s))"
  "previous (replaceLastComponent v s) =
     (if newest s = Some (equation (replaceLastComponent v s)) then previous s else newest s)"
  by (simp_all add: replaceLastComponent_def Let_def updateUndoLog_newest
      updateUndoLog_previous)

lemma log_addComponent:
  "newest (addComponent v s) = Some (equation s @ [Some v])"
  "previous (addComponent v s) =
     (if newest s = Some (equation s @ [Some v]) then previous s else newest s)"
  by (simp_all add: addComponent_def updateUndoLog_newest updateUndoLog_previous)

lemma log_resetEquation:
  "newest (resetEquation s) = Some []"
  "previous (resetEquation s) = (if newest s = Some [] then previous s else newest s)"
  by (simp_all add: resetEquation_def updateUndoLog_newest updateUndoLog_previous)

lemma log_silent:
  "newest (matched s) = newest s" "previous (matched s) = previous s"
  "newest (pop s) = newest s"
  "newest (snd (checkNegativeFormat c s)) = newest s"
  "previous (snd (checkNegativeFormat c s)) = previous s"
  "newest (snd (isNegativeComponent v s)) = newest s"
  "previous (snd (isNegativeComponent v s)) = previous s"
  "newest (snd (isNumeric l s)) = newest s" "previous (snd (isNumeric l s)) = previous s"
  "newest (snd (getPenultimateComponent b s)) = newest s"
  "newest (snd (removeLastChar str s)) = newest s"
  "previous (snd (removeLastChar str s)) = previous s"
  by (auto simp: newest_def previous_def matched_def pop_def checkNegativeFormat_def
      isNegativeComponent_def isNumeric_def getPenultimateComponent_def removeLastChar_def
      Let_def split: option.splits)

lemmas log_simps = log_replaceLastComponent log_addComponent log_resetEquation log_silent
  updateUndoLog_newest updateUndoLog_previous

lemma at_snapshot_silent [simp]:
  "at_snapshot e (matched s) = at_snapshot e s"
  "at_snapshot e (pop s) = at_snapshot e s"
  "at_snapshot e (snd (checkNegativeFormat c s)) = at_snapshot e s"
  "at_snapshot e (snd (isNegativeComponent v s)) = at_snapshot e s"
  "at_snapshot e (snd (isNumeric l s)) = at_snapshot e s"
  "at_snapshot e (snd (getPenultimateComponent b s)) = at_snapshot e s"
  "at_snapshot e (snd (removeLastChar str s)) = at_snapshot e s"
  by (simp_all add: at_snapshot_def log_silent)

lemma held_silent [simp]:
  "held e (matched s) = held e s"
  "held e (snd (checkNegativeFormat c s)) = held e s"
  "held e (snd (isNegativeComponent v s)) = held e s"
  "held e (snd (isNumeric l s)) = held e s"
  "held e (snd (removeLastChar str s)) = held e s"
  by (auto simp: held_def at_snapshot_def one_past_def log_silent matched_def
      checkNegativeFormat_def isNegativeComponent_def isNumeric_def removeLastChar_def Let_def
      split: option.splits)

text \<open>A recording call after the snapshot \<open>e\<close> keeps \<open>e\<close> held; a second one does when
  it finds the buffer the first one left.\<close>

lemma held_recorder:
  assumes "at_snapshot e s"
  shows "held e (replaceLastComponent v s)" and "held e (addComponent w s)"
    and "held e (resetEquation s)" and "held e (updateUndoLog s)"
  using assms by (auto simp: held_def at_snapshot_def one_past_def log_simps)

lemma held_again:
  assumes "held e s"
  shows "held e (updateUndoLog s)"
  using assms by (auto simp: held_def at_snapshot_def one_past_def log_simps)

lemma rerecord:
  assumes "equation (replaceLastComponent v s) = e"
  shows "at_snapshot e (replaceLastComponent v s)"
  using assms by (simp add: at_snapshot_def log_simps)

lemma recorded_at: "recorded s \<Longrightarrow> at_snapshot (equation s) s"
  by (simp add: recorded_def at_snapshot_def newest_def)

text \<open>Reading a keyed last token, and putting it back.\<close>

lemma keyed_read:
  assumes "keyed_last (equation s)"
  shows "getLastComponent False s = (last_token (equation s), s)"
    and "\<not> dangling_decimal (equation s) \<Longrightarrow>
           getLastComponent True s = (last_token (equation s), s)"
    and "fst (checkNegativeFormat (last_token (equation s)) t) = last_token (equation s)"
    and "truthy (last_token (equation s)) = (equation s \<noteq> [])"
proof -
  show "getLastComponent False s = (last_token (equation s), s)"
    using assms
    by (cases "equation s" rule: rev_cases)
       (auto simp: keyed_last_def last_token_def getLastComponent_def or_null_def truthy_def
        split: option.splits)
  show "\<not> dangling_decimal (equation s) \<Longrightarrow>
           getLastComponent True s = (last_token (equation s), s)"
    using assms
    by (cases "equation s" rule: rev_cases)
       (auto simp: keyed_last_def dangling_decimal_def last_token_def getLastComponent_def
        or_null_def truthy_def split: option.splits)
  show "fst (checkNegativeFormat (last_token (equation s)) t) = last_token (equation s)"
    using assms
    by (auto simp: keyed_last_def last_token_def checkNegativeFormat_def split: option.splits)
  show "truthy (last_token (equation s)) = (equation s \<noteq> [])"
    using assms
    by (auto simp: keyed_last_def last_token_def truthy_def split: option.splits)
qed

lemma keyed_or_null:
  assumes "keyed_last eq"
  shows "last_token eq = (if eq = [] then None else or_null (last eq))"
  using assms
  by (auto simp: keyed_last_def last_token_def or_null_def truthy_def split: option.splits)

lemma put_back:
  fixes s :: state
  assumes "equation t = (equation s)[length (equation s) - 1 := x] \<or> equation t = equation s"
  shows "equation (replaceLastComponent (last_token (equation s)) t) = equation s"
proof (cases "equation s" rule: rev_cases)
  case Nil
  with assms show ?thesis by (auto simp: last_token_def)
next
  case (snoc ys y)
  with assms show ?thesis by (auto simp: last_token_def list_update_append)
qed

lemma rerecorded:
  fixes s :: state
  assumes "keyed_last (equation s)"
    and "equation t = (equation s)[length (equation s) - 1 := x] \<or> equation t = equation s"
  shows "equation (replaceLastComponent (fst (checkNegativeFormat (last_token (equation s)) t')) t)
           = equation s"
    and "at_snapshot (equation s)
           (replaceLastComponent (fst (checkNegativeFormat (last_token (equation s)) t')) t)"
proof -
  show eq: "equation (replaceLastComponent
              (fst (checkNegativeFormat (last_token (equation s)) t')) t) = equation s"
    using put_back [OF assms(2)] by (simp only: keyed_read(3) [OF assms(1)])
  show "at_snapshot (equation s)
           (replaceLastComponent (fst (checkNegativeFormat (last_token (equation s)) t')) t)"
    using eq by (rule rerecord)
qed

lemma getPenultimateComponent_writes:
  fixes s :: state
  shows "equation (snd (getPenultimateComponent True s))
           = (equation s)[length (equation s) - 1 :=
                Some (butlast (the (equation s ! (length (equation s) - 2))))]
         \<or> equation (snd (getPenultimateComponent True s)) = equation s"
    and "\<not> penultimate_dangling (equation s) \<Longrightarrow>
           snd (getPenultimateComponent True s) = s"
    and "length (equation s) < 2 \<Longrightarrow> snd (getPenultimateComponent True s) = s"
  by (auto simp: getPenultimateComponent_def penultimate_dangling_def or_null_def truthy_def
      Let_def split: option.splits)

text \<open>The nine operations, each from a state with the calculated flag clear where it
  reads the flag: the buffer it found is held, or it is still the buffer.\<close>

lemma resetEquation_undo:
  assumes "recorded s"
  shows "held (equation s) (resetEquation s)"
  using assms by (intro held_recorder recorded_at)

lemma changeSign_undo:
  assumes "recorded s" and "\<not> calculated s"
  shows "held (equation s) (snd (changeSign s)) \<or> equation (snd (changeSign s)) = equation s"
proof -
  have "at_snapshot (equation s) s"
    using assms(1) by (rule recorded_at)
  then show ?thesis
    using assms(2)
    by (auto simp: changeSign_def getLastComponent_False Let_def case_prod_beta
        intro!: held_recorder)
qed

lemma addFunction_undo:
  assumes k: "keyed_last (equation s)" and nc: "\<not> calculated s" and r: "recorded s"
    and nd: "\<not> dangling_decimal (equation s)" and st: "function_starts_token (equation s)"
  shows "held (equation s) (addFunction f s)"
proof -
  have "at_snapshot (equation s) s"
    using r by (rule recorded_at)
  then have "held (equation s) (addComponent f s)" by (rule held_recorder)
  then show ?thesis
    using st nc
    by (simp add: addFunction_def keyed_read(2) [OF k nd] function_starts_token_def Let_def)
qed

lemma deleteLast_undo:
  assumes "keyed_last (equation s)"
  shows "held (equation s) (deleteLast s) \<or> equation (deleteLast s) = equation s"
proof (cases "equation s = []")
  case True
  then show ?thesis
    by (simp add: deleteLast_def keyed_read [OF assms] last_token_def truthy_def)
next
  case False
  define l where "l = last_token (equation s)"
  define c where "c = fst (checkNegativeFormat l s)"
  define s2 where "s2 = snd (checkNegativeFormat l s)"
  define s3 where "s3 = replaceLastComponent c s2"
  have tr: "truthy l" using keyed_read(4) [OF assms] False by (simp add: l_def)
  have "equation s2 = equation s" by (simp add: s2_def)
  then have at: "at_snapshot (equation s) s3"
    unfolding s3_def c_def l_def using rerecorded(2) [OF assms] by blast
  have rec: "\<And>t. at_snapshot (equation s) t \<Longrightarrow> held (equation s) (updateUndoLog t)"
    by (rule held_recorder)
  have rec2: "\<And>t v. at_snapshot (equation s) t \<Longrightarrow>
                held (equation s) (updateUndoLog (replaceLastComponent v t))"
    by (intro held_again held_recorder)
  have "held (equation s) (deleteLast s)"
    unfolding deleteLast_def keyed_read(1) [OF assms]
    using tr at
    by (simp add: Let_def case_prod_beta l_def [symmetric] c_def [symmetric]
        s2_def [symmetric] s3_def [symmetric] rec rec2)
  then show ?thesis ..
qed

lemma addDecimal_undo:
  assumes k: "keyed_last (equation s)"
    and nf: "\<not> isFunction (last_token (equation s))"
    and r: "recorded s \<or> \<not> decimal_starts_token (equation s)"
  shows "held (equation s) (addDecimal s) \<or> equation (addDecimal s) = equation s"
proof (cases "decimal_starts_token (equation s)")
  case True
  with r have "at_snapshot (equation s) s"
    by (simp add: recorded_at)
  then have "held (equation s) (addComponent (''0'' @ [DECIMAL]) s)" by (rule held_recorder)
  then show ?thesis
    using True
    by (simp add: addDecimal_def keyed_read(1) [OF k] decimal_starts_token_def Let_def)
next
  case False
  define l where "l = last_token (equation s)"
  define c where "c = fst (checkNegativeFormat l s)"
  define s2 where "s2 = snd (checkNegativeFormat l s)"
  define s3 where "s3 = replaceLastComponent c s2"
  have e2: "equation s2 = equation s" by (simp add: s2_def)
  then have at: "at_snapshot (equation s) s3" and e3: "equation s3 = equation s"
    unfolding s3_def c_def l_def using rerecorded [OF k] by blast+
  have rec: "\<And>t v. at_snapshot (equation s) t \<Longrightarrow> held (equation s) (replaceLastComponent v t)"
    by (rule held_recorder)
  show ?thesis
    unfolding addDecimal_def keyed_read(1) [OF k]
    using False nf at e3
    by (simp add: Let_def case_prod_beta decimal_starts_token_def l_def [symmetric]
        c_def [symmetric] s2_def [symmetric] s3_def [symmetric] rec)
qed

lemma addDigit_undo:
  assumes k: "keyed_last (equation s)"
    and nc: "\<not> calculated s"
    and r: "recorded s \<or> \<not> digit_starts_token (equation s)"
  shows "held (equation s) (snd (addDigit d s)) \<or> equation (snd (addDigit d s)) = equation s"
proof -
  define l where "l = last_token (equation s)"
  have s1: "s = (if calculated s then resetEquation s else s)" using nc by simp
  have l: "l = (if equation s = [] then None else or_null (last (equation s)))"
    unfolding l_def using k by (rule keyed_or_null)
  show ?thesis
  proof (cases "digit_starts_token (equation s)")
    case True
    with r have "at_snapshot (equation s) s"
      by (simp add: recorded_at)
    then have h: "held (equation s) (addComponent d s)" by (rule held_recorder)
    have "addDigit d s = (True, addComponent d s)"
      using True by (intro addDigit_start [OF s1 l])
                    (simp add: digit_starts_token_def Let_def l_def)
    then show ?thesis using h by simp
  next
    case False
    define c where "c = fst (checkNegativeFormat l s)"
    define s4 where "s4 = replaceLastComponent c (snd (checkNegativeFormat l s))"
    have "equation (snd (checkNegativeFormat l s)) = equation s" by simp
    then have at: "at_snapshot (equation s) s4" and e4: "equation s4 = equation s"
      unfolding s4_def c_def l_def using rerecorded [OF k] by blast+
    define s5 where "s5 = snd (isNegativeComponent (the l) s4)"
    have at5: "at_snapshot (equation s) s5"
      using at by (simp add: s5_def)
    have paths: "\<exists>new s6. at_snapshot (equation s) s6
                   \<and> snd (addDigit d s) \<in> {replaceLastComponent (Some new) s6, updateUndoLog s6}"
    proof -
      have not: "\<not> ((\<not> truthy l \<or> isOperator l \<or> isModifier l \<or> isBracket l
                       \<or> isFunction l)
                     \<and> (l \<noteq> Some ''-'' \<or> length (equation s) > 1))"
        using False by (simp add: digit_starts_token_def Let_def l_def)
      define new where "new = (if fst (isNegativeComponent (the l) s4) \<or> the l = ''-''
                       then ''(-'' @ (if regexp2 s5 = ''0'' then [] else regexp2 s5) @ d @ '')''
                       else if the l = ''0'' then d
                       else the l @ d)"
      define s6 where "s6 = (if list_all is_digit new then s5 else matched s5)"
      have "addDigit d s = (if length (filter is_digit new) \<le> MAX_DIGITS
               then (True, replaceLastComponent (Some new) s6)
               else (False, updateUndoLog s6))"
        unfolding addDigit_merge [OF s1 l not] Let_def c_def [symmetric] s4_def [symmetric]
          s5_def [symmetric] new_def [symmetric] s6_def [symmetric]
        by (rule refl)
      moreover have "at_snapshot (equation s) s6"
        using at5 by (simp add: s6_def)
      ultimately show ?thesis by (intro exI [of _ new] exI [of _ s6]) simp
    qed
    then obtain new s6 where a6: "at_snapshot (equation s) s6"
      and "snd (addDigit d s) = replaceLastComponent (Some new) s6
           \<or> snd (addDigit d s) = updateUndoLog s6"
      by auto
    then show ?thesis using held_recorder(1,4) [OF a6] by metis
  qed
qed

lemma addBracket_undo:
  assumes k: "keyed_last (equation s)"
    and r: "recorded s" and ni: "\<not> inserts_multiplication s"
  shows "held (equation s) (addBracket s)"
proof -
  define l where "l = last_token (equation s)"
  define numeric where "numeric = (if isEmpty s \<or> isBracket l then (False, s) else isNumeric l s)"
  define sign where "sign = (if isEmpty s then BRACKET_OPEN
                  else if isBracket l then
                    (if l = Some BRACKET_CLOSE
                        \<and> countComponent BRACKET_OPEN s + countFunctions s
                            > countComponent BRACKET_CLOSE s
                     then BRACKET_CLOSE else BRACKET_OPEN)
                  else if fst numeric \<and> countComponent BRACKET_OPEN s + countFunctions s
                                           = countComponent BRACKET_CLOSE s
                  then ''*'' @ BRACKET_OPEN
                  else if isOperator l then BRACKET_OPEN
                  else if l \<noteq> Some BRACKET_CLOSE \<and> l \<noteq> Some BRACKET_OPEN
                          \<and> countComponent BRACKET_OPEN s + countFunctions s
                              > countComponent BRACKET_CLOSE s then BRACKET_CLOSE
                  else BRACKET_OPEN)"
  have call: "addBracket s = fold (\<lambda>ch. addComponent [ch]) sign (snd numeric)"
    unfolding addBracket_def keyed_read(1) [OF k]
    by (simp only: Let_def split_conv case_prod_beta fst_conv snd_conv l_def [symmetric]
        numeric_def [symmetric] sign_def [symmetric])
  have one: "\<exists>ch. sign = [ch]"
    using ni
    by (auto simp: sign_def numeric_def inserts_multiplication_def isEmpty_def Let_def
        l_def [symmetric] BRACKET_OPEN_def BRACKET_CLOSE_def)
  have at: "at_snapshot (equation s) (snd numeric)"
    using recorded_at [OF r] by (simp add: numeric_def)
  from one obtain ch where "sign = [ch]" ..
  then have "addBracket s = addComponent [ch] (snd numeric)" using call by simp
  then show ?thesis using held_recorder(2) [OF at] by simp
qed

lemma addOperator_undo:
  assumes k: "keyed_last (equation s)"
    and nc: "\<not> calculated s"
    and nd: "\<not> dangling_decimal (equation s)"
    and r: "recorded s \<or> \<not> (last_token (equation s) = Some ''-''
              \<and> penultimate_dangling (equation s)
              \<and> isFunction (fst (getPenultimateComponent True s)))"
  shows "held (equation s) (addOperator operator s)
         \<or> equation (addOperator operator s) = equation s"
proof -
  define l where "l = last_token (equation s)"
  define pen where "pen = fst (getPenultimateComponent True s)"
  define s3 where "s3 = snd (getPenultimateComponent True s)"
  define c where "c = fst (checkNegativeFormat l s3)"
  define s5 where "s5 = replaceLastComponent c (snd (checkNegativeFormat l s3))"
  have call: "addOperator operator s =
      (if \<not> truthy l \<and> operator \<noteq> ''-'' then s3
         else if l = Some ''-'' \<and> length (equation s3) = 1 then s3
         else if l = Some ''-'' \<and> isFunction pen then s3
         else
           (if isOperator l then replaceLastComponent (Some operator) s5
               else if isFunction l then
                 (if operator = ''-'' then addComponent operator s5 else s5)
               else if truthy l \<and> match_E_end (the l) then
                 (if operator = ''-''
                  then replaceLastComponent (Some (the l @ ''-'')) (matched s5)
                  else matched s5)
               else addComponent operator s5))"
    unfolding addOperator_def
    by (simp only: nc if_False Let_def keyed_read(2) [OF k nd] split_conv case_prod_beta
        fst_conv snd_conv l_def [symmetric] pen_def [symmetric] s3_def [symmetric]
        c_def [symmetric] s5_def [symmetric])
  have w: "equation (snd (checkNegativeFormat l s3))
             = (equation s)[length (equation s) - 1 :=
                  Some (butlast (the (equation s ! (length (equation s) - 2))))]
           \<or> equation (snd (checkNegativeFormat l s3)) = equation s"
    using getPenultimateComponent_writes(1) [of s] by (simp add: s3_def)
  have at5: "at_snapshot (equation s) s5" and e5: "equation s5 = equation s"
    unfolding s5_def c_def l_def using rerecorded [OF k w [unfolded l_def]] by blast+
  have main: "held (equation s) (replaceLastComponent v s5)"
             "held (equation s) (addComponent x s5)"
             "held (equation s) (replaceLastComponent v (matched s5))"
             "equation (matched s5) = equation s" for v x
    using at5 e5 by (simp_all add: held_recorder)
  have early: "held (equation s) s3 \<or> equation s3 = equation s"
    if "\<not> truthy l \<and> operator \<noteq> ''-'' \<or> l = Some ''-'' \<and> length (equation s3) = 1
        \<or> l = Some ''-'' \<and> isFunction pen"
  proof (cases "penultimate_dangling (equation s)")
    case False
    then show ?thesis using getPenultimateComponent_writes(2) by (simp add: s3_def)
  next
    case True
    then have len: "2 \<le> length (equation s)" by (simp add: penultimate_dangling_def)
    then have "equation s \<noteq> []" by auto
    then have tr: "truthy l" using keyed_read(4) [OF k] by (simp add: l_def)
    have "length (equation s3) = length (equation s)"
      using getPenultimateComponent_writes(1) [of s] by (auto simp: s3_def)
    then have "length (equation s3) \<noteq> 1" using len by simp
    with that tr have "l = Some ''-'' \<and> isFunction pen" by auto
    with r True have "recorded s" by (simp add: l_def pen_def)
    then have "at_snapshot (equation s) s3"
      using recorded_at by (simp add: s3_def)
    then show ?thesis by (simp add: held_def)
  qed
  show ?thesis
    unfolding call using main e5 early by (simp split: if_splits)
qed

lemma addModifier_undo:
  assumes k: "keyed_last (equation s)"
    and nc: "\<not> calculated s"
    and nd: "\<not> dangling_decimal (equation s)"
    and r: "recorded s \<or> \<not> penultimate_dangling (equation s)
            \<or> takes_modifier (last_token (equation s))"
  shows "held (equation s) (addModifier m s) \<or> equation (addModifier m s) = equation s"
proof -
  define l where "l = last_token (equation s)"
  define s3 where "s3 = snd (getPenultimateComponent True s)"
  define s4 where "s4 = snd (isNumeric l s3)"
  define c where "c = fst (checkNegativeFormat l s4)"
  define s6 where "s6 = replaceLastComponent c (snd (checkNegativeFormat l s4))"
  have numeric: "fst (isNumeric l s3) = (case l of None \<Rightarrow> False | Some v \<Rightarrow> match_numeric v)"
    by (simp add: isNumeric_def split: option.splits)
  have call: "addModifier m s =
      (if \<not> truthy l then s3
       else if takes_modifier l then
              (if \<not> (truthy l \<and> match_E_end (the l)) then addComponent m s6
               else matched s6)
            else s4)"
    unfolding addModifier_def takes_modifier_def numeric [symmetric]
    by (simp only: nc if_False Let_def keyed_read(2) [OF k nd] split_conv case_prod_beta
        fst_conv snd_conv l_def [symmetric] s3_def [symmetric] s4_def [symmetric]
        c_def [symmetric] s6_def [symmetric])
  have w: "equation (snd (checkNegativeFormat l s4))
             = (equation s)[length (equation s) - 1 :=
                  Some (butlast (the (equation s ! (length (equation s) - 2))))]
           \<or> equation (snd (checkNegativeFormat l s4)) = equation s"
    using getPenultimateComponent_writes(1) [of s] by (simp add: s3_def s4_def)
  have at6: "at_snapshot (equation s) s6" and e6: "equation s6 = equation s"
    unfolding s6_def c_def l_def using rerecorded [OF k w [unfolded l_def]] by blast+
  have main: "held (equation s) (addComponent x s6)"
             "equation (matched s6) = equation s" for x
    using at6 e6 by (simp_all add: held_recorder)
  have empty: "s3 = s" if "\<not> truthy l"
  proof -
    from that have "equation s = []" using keyed_read(4) [OF k] by (simp add: l_def)
    then show ?thesis using getPenultimateComponent_writes(3) [of s] by (simp add: s3_def)
  qed
  have refused: "held (equation s) s4 \<or> equation s4 = equation s" if "\<not> takes_modifier l"
  proof (cases "penultimate_dangling (equation s)")
    case False
    then show ?thesis
      using getPenultimateComponent_writes(2) by (simp add: s3_def s4_def)
  next
    case True
    with r that have "recorded s" by (simp add: l_def)
    then have "at_snapshot (equation s) s4"
      using recorded_at by (simp add: s3_def s4_def)
    then show ?thesis by (simp add: held_def)
  qed
  show ?thesis
    unfolding call using main empty refused by (simp split: if_splits)
qed

text \<open>With a result on display an operation goes on from \<open>after_result\<close>, where the
  flag is clear.\<close>

lemma perform_after_result: "perform op s = perform op (after_result op s)"
proof (cases "calculated s")
  case False
  then show ?thesis by (cases op) simp_all
next
  case True
  have r: "calculated (resetEquation s) = False"
    and a: "calculated (addComponent (lastCalculationResult s) (resetEquation s)) = False"
    by simp_all
  show ?thesis
  proof (cases op)
    case (AddDigit d)
    then show ?thesis using True r
      by (simp only: perform.simps after_result.simps addDigit_def if_True if_False)
  next
    case (AddOperator operator)
    then show ?thesis using True a
      by (simp only: perform.simps after_result.simps addOperator_def if_True if_False)
  next
    case (AddModifier m)
    then show ?thesis using True a
      by (simp only: perform.simps after_result.simps addModifier_def if_True if_False)
  next
    case (AddFunction f)
    then show ?thesis using True r
      by (simp only: perform.simps after_result.simps addFunction_def if_True if_False)
  next
    case ChangeSign
    then show ?thesis using True a
      by (simp only: perform.simps after_result.simps changeSign_def if_True if_False)
  qed simp_all
qed

lemma after_result_flag:
  "op \<in> range AddDigit \<union> range AddOperator \<union> range AddModifier \<union> range AddFunction
        \<union> {ChangeSign}
   \<Longrightarrow> \<not> calculated (after_result op s)"
  by (cases op) auto

lemma one_snapshot_held:
  assumes "keyed_last (equation s)" and "one_snapshot op s"
    and "op \<in> range AddDigit \<union> range AddOperator \<union> range AddModifier \<union> range AddFunction
               \<union> {ChangeSign} \<Longrightarrow> \<not> calculated s"
  shows "held (equation s) (perform op s) \<or> equation (perform op s) = equation s"
proof (cases op)
  case (AddDigit d)
  then show ?thesis using assms addDigit_undo [of s d] by simp
next
  case (AddOperator operator)
  then show ?thesis using assms addOperator_undo [of s operator] by simp
next
  case (AddModifier m)
  then show ?thesis using assms addModifier_undo [of s m] by simp
next
  case (AddFunction f)
  then show ?thesis using assms addFunction_undo [of s f] by simp
next
  case AddDecimal
  then show ?thesis using assms addDecimal_undo [of s] by simp
next
  case DeleteLast
  then show ?thesis using assms deleteLast_undo [of s] by simp
next
  case ChangeSign
  then show ?thesis using assms changeSign_undo [of s] by simp
next
  case AddBracket
  then show ?thesis using assms addBracket_undo [of s] by simp
next
  case ResetEquation
  then show ?thesis using assms resetEquation_undo [of s] by simp
qed

text \<open>The key 5 pressed when the log holds 299 snapshots, and the plus key after it.\<close>

lemma typed_5_on_full_log_state:
  "equation typed_5_on_full_log = [Some ''5''] \<and> \<not> calculated typed_5_on_full_log
   \<and> length (undoLog typed_5_on_full_log) = 300
   \<and> top (undoLog typed_5_on_full_log) = Some [Some ''5'']"
proof -
  have before: "idle (type_and_delete 149 init)"
    and len: "length (undoLog (type_and_delete 149 init)) = 299"
    using type_and_delete_log [of 149] by simp_all
  show ?thesis
    unfolding typed_5_on_full_log_def using before len
    by (simp add: idle_def addDigit_def Let_def buffer_defs class_defs regexp_defs
        split: if_splits)
qed

lemma typed_5_on_full_log_plus:
  "undoable (AddOperator ''+'') typed_5_on_full_log
   \<and> equation (perform (AddOperator ''+'') typed_5_on_full_log) = [Some ''5'', Some ''+'']"
  using typed_5_on_full_log_state
  by (simp add: undoable_def recorded_def keyed_last_def dangling_decimal_def
      addOperator_def Let_def buffer_defs class_defs regexp_defs last_token_def)

text \<open>
  C1, as amended. Take a state whose last token, if it has one, is a non-empty string
  that does not begin with \<open>-d\<close>, and one of the nine operations on a path that records
  the buffer it found and at most one new buffer (\<open>undoable\<close>: no result on display that
  the operation would replace, no second snapshot, and a log whose newest snapshot is
  the buffer unless the operation records the buffer itself). If the operation changes
  the buffer, \<open>undo\<close> right after it restores the token sequence the buffer held
  before the operation.
\<close>

theorem undo_restores_buffer_before_operation:
  assumes "undoable op s" and "equation (perform op s) \<noteq> equation s"
  shows "equation (undo (perform op s)) = equation s"
proof -
  define s1 where "s1 = after_result op s"
  have e1: "equation s1 = equation s" and k: "keyed_last (equation s1)"
    and os: "one_snapshot op s1"
    using assms(1) by (simp_all add: undoable_def s1_def)
  have p: "perform op s = perform op s1"
    unfolding s1_def by (rule perform_after_result)
  have "held (equation s1) (perform op s1) \<or> equation (perform op s1) = equation s1"
    using k os after_result_flag [of op s] unfolding s1_def by (rule one_snapshot_held)
  then have "held (equation s) (perform op s)"
    using assms(2) by (simp add: p e1)
  then show ?thesis using assms(2) by (rule held_undo)
qed

text \<open>
  Two such states. After the keys 1, 2, 3 and \<open>undo\<close> the buffer is \<open>12\<close> and the
  newest snapshot is \<open>1\<close>: the key 4 records \<open>12\<close> before it writes \<open>124\<close>.
  With 300 snapshots in the log the plus key records the 301st, the log is cut to 201,
  and its last two snapshots are still there.
\<close>

theorem undo_restores_buffer_witness:
  "equation typed_123_undone = [Some ''12'']
   \<and> top (undoLog typed_123_undone) = Some [Some ''1'']
   \<and> equation (perform (AddDigit ''4'') typed_123_undone) = [Some ''124'']
   \<and> equation (undo (perform (AddDigit ''4'') typed_123_undone)) = [Some ''12'']
   \<and> length (undoLog typed_5_on_full_log) = 300
   \<and> equation (undo (perform (AddOperator ''+'') typed_5_on_full_log)) = [Some ''5'']"
proof -
  have a: "equation typed_123_undone = [Some ''12'']"
    and b: "top (undoLog typed_123_undone) = Some [Some ''1'']"
    and c: "equation (perform (AddDigit ''4'') typed_123_undone) = [Some ''124'']"
    and d: "undoable (AddDigit ''4'') typed_123_undone"
    and e: "equation (perform (AddDigit ''4'') typed_123_undone) \<noteq> equation typed_123_undone"
    by code_simp+
  have "equation (undo (perform (AddDigit ''4'') typed_123_undone))
        = equation typed_123_undone"
    using d e by (rule undo_restores_buffer_before_operation)
  moreover have "equation (undo (perform (AddOperator ''+'') typed_5_on_full_log))
        = equation typed_5_on_full_log"
    using typed_5_on_full_log_plus typed_5_on_full_log_state
    by (intro undo_restores_buffer_before_operation) simp_all
  ultimately show ?thesis
    using a b c typed_5_on_full_log_state by simp
qed

text \<open>
  C1 as stated fails for the bracket key after the digit 5: \<open>addBracket\<close> pushes \<open>*\<close>
  and \<open>(\<close> through \<open>addComponent\<close>, which records a snapshot each time, and \<open>undo\<close>
  goes back to the snapshot between them.
\<close>

theorem undo_after_addBracket_keeps_multiplication:
  "equation (perform (AddDigit ''5'') init) = [Some ''5'']
   \<and> equation (perform AddBracket (perform (AddDigit ''5'') init))
       = [Some ''5'', Some ''*'', Some ''('']
   \<and> equation (undo (perform AddBracket (perform (AddDigit ''5'') init)))
       = [Some ''5'', Some ''*'']"
  by code_simp

text \<open>
  What the hypotheses of that theorem leave out, each on keys pressed after \<open>init\<close>
  (the first on the result of 5 + 3): a digit after a result; a digit that opens a token
  after \<open>undo\<close>; an operator after a token that ends in the decimal separator; a function
  after a value and the decimal point after a function, which push \<open>*\<close> first; and a
  tenth digit, which changes nothing, so that \<open>undo\<close> takes back the ninth.
\<close>

lemma undo_after_other_paths:
  "equation (undo (perform (AddDigit ''1'') showing_5_plus_3)) = []"
  "equation (undo (snd (addDigit ''3'' typed_5_plus))) = [Some ''5'', Some ''+'']
   \<and> equation (undo (perform (AddDigit ''3'') (undo (snd (addDigit ''3'' typed_5_plus)))))
       = [Some ''5'']"
  "equation (addDecimal typed_5) = [Some ''5.'']
   \<and> equation (undo (perform (AddOperator ''+'') (addDecimal typed_5))) = [Some ''5'']"
  "equation (undo (perform (AddFunction ''sqrt('') typed_5)) = [Some ''5'', Some ''*'']"
  "equation (undo (perform AddDecimal (addFunction ''sqrt('' init)))
     = [Some ''sqrt('', Some ''*'']"
  "equation (perform (AddDigit ''0'') typed_nine_digits) = equation typed_nine_digits
   \<and> equation (undo (perform (AddDigit ''0'') typed_nine_digits)) = [Some ''12345678'']"
  by code_simp+

end
